theory Spec2Isabelle
  imports Main
begin

section \<open>JavaScript values\<close>

text \<open>
  The adapter of \<^verbatim>\<open>server/mongo/src/storage.ts\<close> works on untyped JavaScript values:
  documents, filters, update payloads and transaction attributes are plain objects. An
  object is modelled as an association list, which keeps the insertion order that
  \<^verbatim>\<open>Object.keys\<close> and \<^verbatim>\<open>Object.entries\<close> enumerate (property names are assumed not to
  be canonical array indices, which JavaScript would enumerate first).
\<close>

datatype json =
    JUndefined
  | JNull
  | JBool bool
  | JNum int
  | JStr string
  | JArr "json list"
  | JObj "(string \<times> json) list"

type_synonym obj = "(string \<times> json) list"

datatype error = TypeError

definition bindE :: "error + 'a \<Rightarrow> ('a \<Rightarrow> error + 'b) \<Rightarrow> error + 'b" where
  "bindE m f = (case m of Inl e \<Rightarrow> Inl e | Inr x \<Rightarrow> f x)"

text \<open>\<^verbatim>\<open>o[k] = v\<close>: an existing property keeps its place, a new one goes last. The same
  function models \<^verbatim>\<open>Map.set\<close>, whose iteration order is insertion order too.\<close>

primrec assign :: "'k \<Rightarrow> 'v \<Rightarrow> ('k \<times> 'v) list \<Rightarrow> ('k \<times> 'v) list" where
  "assign k v [] = [(k, v)]"
| "assign k v (p # ps) = (if fst p = k then (k, v) # ps else p # assign k v ps)"

text \<open>\<^verbatim>\<open>for (const [k, v] of entries) target[k] = v\<close>, also the spread
  \<^verbatim>\<open>{ ...target, ...entries }\<close>.\<close>

definition assignAll :: "('k \<times> 'v) list \<Rightarrow> ('k \<times> 'v) list \<Rightarrow> ('k \<times> 'v) list" where
  "assignAll entries target = fold (\<lambda>kv acc. assign (fst kv) (snd kv) acc) entries target"

text \<open>\<^verbatim>\<open>delete o[k]\<close>.\<close>

definition delete_key :: "'k \<Rightarrow> ('k \<times> 'v) list \<Rightarrow> ('k \<times> 'v) list" where
  "delete_key k ps = filter (\<lambda>p. fst p \<noteq> k) ps"

text \<open>\<^verbatim>\<open>k in o\<close> and \<^verbatim>\<open>o[k]\<close> on an object.\<close>

definition has_key :: "'k \<Rightarrow> ('k \<times> 'v) list \<Rightarrow> bool" where
  "has_key k ps = (k \<in> set (map fst ps))"

definition get_prop :: "obj \<Rightarrow> string \<Rightarrow> json" where
  "get_prop ps k = (case map_of ps k of None \<Rightarrow> JUndefined | Some v \<Rightarrow> v)"

definition startsWith :: "string \<Rightarrow> string \<Rightarrow> bool" where
  "startsWith s p = (take (length p) s = p)"

definition endsWith :: "string \<Rightarrow> string \<Rightarrow> bool" where
  "endsWith s p = (length p \<le> length s \<and> drop (length s - length p) s = p)"

text \<open>\<^verbatim>\<open>s.includes(p)\<close>.\<close>

fun str_includes :: "string \<Rightarrow> string \<Rightarrow> bool" where
  "str_includes [] p = (p = [])"
| "str_includes (c # s) p = (startsWith (c # s) p \<or> str_includes s p)"

text \<open>Decimal rendering of an array index, the property names of arrays and strings.\<close>

fun digits :: "nat \<Rightarrow> string" where
  "digits n =
     (if n < 10 then [char_of (48 + n)]
      else digits (n div 10) @ [char_of (48 + n mod 10)])"

declare digits.simps [simp del]

definition indexed :: "json list \<Rightarrow> obj" where
  "indexed xs = zip (map digits [0..<length xs]) xs"

text \<open>\<^verbatim>\<open>Object.entries(v)\<close>: a TypeError on \<^verbatim>\<open>null\<close> and \<^verbatim>\<open>undefined\<close>, no entry for a
  number or a boolean, the indexed characters of a string and elements of an array.\<close>

fun js_entries :: "json \<Rightarrow> error + obj" where
  "js_entries JUndefined = Inl TypeError"
| "js_entries JNull = Inl TypeError"
| "js_entries (JBool b) = Inr []"
| "js_entries (JNum n) = Inr []"
| "js_entries (JStr s) = Inr (indexed (map (\<lambda>c. JStr [c]) s))"
| "js_entries (JArr xs) = Inr (indexed xs)"
| "js_entries (JObj kvs) = Inr kvs"

definition js_keys :: "json \<Rightarrow> error + string list" where
  "js_keys v = bindE (js_entries v) (\<lambda>es. Inr (map fst es))"

text \<open>\<^verbatim>\<open>v[k]\<close> for a name \<open>k\<close> that is an own enumerable property or no property at all
  (the only way the adapter reads a property of an untyped value): a TypeError on
  \<^verbatim>\<open>null\<close> and \<^verbatim>\<open>undefined\<close>, \<^verbatim>\<open>undefined\<close> for a missing name.\<close>

definition js_get :: "json \<Rightarrow> string \<Rightarrow> error + json" where
  "js_get v k = bindE (js_entries v) (\<lambda>es. Inr (get_prop es k))"

text \<open>The object spread \<^verbatim>\<open>{ ...v }\<close>, which takes \<^verbatim>\<open>null\<close> and \<^verbatim>\<open>undefined\<close> as
  empty.\<close>

definition spread :: "json \<Rightarrow> obj" where
  "spread v = (case js_entries v of Inl e \<Rightarrow> [] | Inr es \<Rightarrow> es)"

text \<open>\<^verbatim>\<open>Object.keys(x)[0]\<close> used as a property name: the name \<^verbatim>\<open>undefined\<close> when there
  is no key.\<close>

definition first_key :: "string list \<Rightarrow> string" where
  "first_key ks = (case ks of [] \<Rightarrow> ''undefined'' | k # _ \<Rightarrow> k)"

text \<open>Modelled from the spec: \<^verbatim>\<open>isOperator\<close> of the core package is not among the
  sources. The spec calls operator form ``a single recognized operator (\<^verbatim>\<open>$move\<close>,
  \<^verbatim>\<open>$update\<close>, or native-style update operators)'' as opposed to a flat attribute patch:
  an object with at least one key, all of whose keys are operator names (start with
  \<^verbatim>\<open>$\<close>).\<close>

fun isOperator :: "json \<Rightarrow> bool" where
  "isOperator (JObj kvs) = (kvs \<noteq> [] \<and> list_all (\<lambda>kv. startsWith (fst kv) ''$'') kvs)"
| "isOperator _ = False"

section \<open>Transactions and the Operation Bulk\<close>

datatype txclass =
    TxCreateDoc
  | TxCollectionCUD
  | TxUpdateDoc
  | TxRemoveDoc
  | TxMixin
  | TxApplyIf
  | TxOther string

text \<open>The fields the translator reads from a transaction object; \<open>attributes\<close> belongs to
  create and mixin transactions, \<open>operations\<close> and \<open>retrieve\<close> to updates, \<open>collection\<close>
  to collection transactions.\<close>

record txfields =
  objectId :: string
  objectClass :: string
  modifiedBy :: json
  modifiedOn :: json
  attributes :: json
  operations :: json
  retrieve :: bool
  mixin :: string
  collection :: string

text \<open>A transaction: its \<^verbatim>\<open>_class\<close>, its fields, and the nested \<^verbatim>\<open>tx.tx\<close> that a
  collection transaction wraps.\<close>

datatype tx = Tx (tx_class: txclass) (tx_fields: txfields) (tx_inner: "tx option")

datatype bulkop =
    InsertOne obj
  | UpdateOne obj obj
  | DeleteOne obj
  | ReplaceOne obj obj bool

text \<open>A deferred \<^verbatim>\<open>findOneAndUpdate\<close> of \<open>raw\<close>: domain, filter, update.\<close>

datatype rawcall = FindOneAndUpdate string obj obj

record OperationBulk =
  bulks :: nat
  add :: "obj list"
  update :: "(string \<times> obj) list"
  bulkOperations :: "bulkop list"
  findUpdate :: "string list"
  raw :: "rawcall list"

text \<open>The part of the class hierarchy the adapter consults. \<open>findAttribute\<close> gives the
  owning class and the type class of an attribute.\<close>

record attribute =
  attributeOf :: string
  typeClass :: string

record hierarchy =
  getBaseClass :: "string \<Rightarrow> string"
  getDescendants :: "string \<Rightarrow> string list"
  isMixin :: "string \<Rightarrow> bool"
  findAttribute :: "string \<Rightarrow> string \<Rightarrow> attribute option"
  findDomain :: "string \<Rightarrow> string option"
  getDomain :: "string \<Rightarrow> error + string"

definition translateDoc :: "obj \<Rightarrow> obj" where
  "translateDoc doc = assign ''%hash%'' JNull doc"

text \<open>Termination measure of \<open>translateMixinAttrs\<close>: the nesting of operator keys.\<close>

fun opdepth :: "json \<Rightarrow> nat" where
  "opdepth (JObj kvs) =
     sum_list (map (\<lambda>kv. if startsWith (fst kv) ''$'' then Suc (opdepth (snd kv)) else 0) kvs)"
| "opdepth _ = 0"

lemma digits_nonempty: "digits n \<noteq> []"
  by (induction n rule: digits.induct) (subst digits.simps, simp)

lemma hd_digits_ge: "of_char (hd (digits n)) \<ge> (48::nat)"
proof (induction n rule: digits.induct)
  case (1 n)
  show ?case
  proof (cases "n < 10")
    case True
    then show ?thesis by (subst digits.simps) simp
  next
    case False
    with 1 digits_nonempty [of "n div 10"] show ?thesis
      by (subst digits.simps) simp
  qed
qed

lemma digits_not_operator: "\<not> startsWith (digits n) ''$''"
proof
  assume "startsWith (digits n) ''$''"
  then have "hd (digits n) = CHR ''$''"
    using digits_nonempty [of n] by (cases "digits n") (auto simp: startsWith_def)
  with hd_digits_ge [of n] show False by simp
qed

lemma indexed_not_operator: "(k, v) \<in> set (indexed xs) \<Longrightarrow> \<not> startsWith k ''$''"
  by (auto simp: indexed_def digits_not_operator dest!: set_zip_leftD)

lemma opdepth_member:
  "(k, v) \<in> set kvs \<Longrightarrow> startsWith k ''$'' \<Longrightarrow> opdepth v < opdepth (JObj kvs)"
  by (induction kvs) auto

lemma opdepth_entries:
  "js_entries a = Inr entries \<Longrightarrow> (k, v) \<in> set entries \<Longrightarrow> startsWith k ''$''
     \<Longrightarrow> opdepth v < opdepth a"
  by (cases a) (auto dest: indexed_not_operator opdepth_member simp del: opdepth.simps)

function translateMixinAttrs :: "string \<Rightarrow> json \<Rightarrow> error + obj" where
  "translateMixinAttrs mixin' attributes' =
     (case js_entries attributes' of
        Inl e \<Rightarrow> Inl e
      | Inr entries \<Rightarrow>
          (case fold (\<lambda>(k, v) acc.
                  case acc of
                    Inl e \<Rightarrow> Inl e
                  | Inr (attrs, count) \<Rightarrow>
                      if startsWith k ''$''
                      then (case translateMixinAttrs mixin' v of
                              Inl e \<Rightarrow> Inl e
                            | Inr t \<Rightarrow> Inr (assign k (JObj t) attrs, Suc count))
                      else Inr (assign (mixin' @ ''.'' @ k) v attrs, Suc count))
                entries (Inr ([], 0::nat)) of
             Inl e \<Rightarrow> Inl e
           | Inr (attrs, count) \<Rightarrow>
               Inr (if count = 0
                    then assign (mixin' @ ''.'' @ ''__mixin'') (JStr ''true'') attrs
                    else attrs)))"
  by pat_completeness auto
termination
  by (relation "measure (\<lambda>(m, a). opdepth a)")
    (auto dest: opdepth_entries simp del: opdepth.simps)

declare translateMixinAttrs.simps [simp del]

subsection \<open>The transaction branches\<close>

definition emptyBulk :: OperationBulk where
  "emptyBulk = \<lparr>bulks = 1, add = [], update = [], bulkOperations = [], findUpdate = [], raw = []\<rparr>"

text \<open>\<open>txCreateDoc\<close>. \<^verbatim>\<open>TxProcessor.createDoc2Doc\<close> is not among the sources and is a
  parameter.\<close>

definition txCreateDoc :: "(txfields \<Rightarrow> obj) \<Rightarrow> OperationBulk \<Rightarrow> txfields \<Rightarrow> OperationBulk" where
  "txCreateDoc createDoc2Doc bulk t =
     (let doc = createDoc2Doc t in bulk\<lparr>add := add bulk @ [translateDoc doc]\<rparr>)"

definition txRemoveDoc :: "OperationBulk \<Rightarrow> txfields \<Rightarrow> OperationBulk" where
  "txRemoveDoc bulk t =
     bulk\<lparr>bulkOperations := bulkOperations bulk @ [DeleteOne [(''_id'', JStr (objectId t))]]\<rparr>"

text \<open>The coalescing loop shared by the flat branches of \<open>txMixin\<close> and \<open>txUpdateDoc\<close>:
  \<^verbatim>\<open>let upd = bulk.update.get(id); if (upd === undefined) { upd = {}; bulk.update.set(id, upd) }
  for (const [k, v] of Object.entries(update)) upd[k] = v\<close>.\<close>

definition coalesce :: "OperationBulk \<Rightarrow> string \<Rightarrow> obj \<Rightarrow> OperationBulk" where
  "coalesce bulk oid entries =
     (let upd = (case map_of (update bulk) oid of None \<Rightarrow> [] | Some u \<Rightarrow> u)
      in bulk\<lparr>update := assign oid (assignAll entries upd) (update bulk)\<rparr>)"

definition txMixin :: "OperationBulk \<Rightarrow> txfields \<Rightarrow> error + OperationBulk" where
  "txMixin bulk t =
     (let filter' = [(''_id'', JStr (objectId t))];
          modifyOp = [(''modifiedBy'', modifiedBy t), (''modifiedOn'', modifiedOn t)]
      in if isOperator (attributes t)
         then
           bindE (js_keys (attributes t)) (\<lambda>ks.
             let operator = first_key ks in
             if operator = ''$move''
             then
               bindE (js_get (attributes t) ''$move'') (\<lambda>keyval.
               bindE (js_keys keyval) (\<lambda>kks.
                 let arr = mixin t @ ''.'' @ first_key kks in
                 bindE (js_get keyval arr) (\<lambda>desc.
                 bindE (js_get desc ''$value'') (\<lambda>val.
                 bindE (js_get desc ''$position'') (\<lambda>pos.
                   let ops =
                     [UpdateOne filter' [(''$pull'', JObj [(arr, val)])],
                      UpdateOne filter'
                        [(''$set'', JObj modifyOp),
                         (''$push'', JObj [(arr, JObj [(''$each'', JArr [val]),
                                                        (''$position'', pos)])])]]
                   in Inr (bulk\<lparr>bulkOperations := bulkOperations bulk @ ops\<rparr>))))))
             else
               bindE (translateMixinAttrs (mixin t) (attributes t)) (\<lambda>attrs.
                 let update' = assign ''$set'' (JObj modifyOp) attrs
                 in Inr (bulk\<lparr>bulkOperations :=
                           bulkOperations bulk @ [UpdateOne filter' update']\<rparr>)))
         else
           bindE (translateMixinAttrs (mixin t) (attributes t)) (\<lambda>attrs.
             let update' = assignAll modifyOp attrs
             in Inr (coalesce bulk (objectId t) update')))"

definition txUpdateDoc :: "hierarchy \<Rightarrow> OperationBulk \<Rightarrow> txfields \<Rightarrow> error + OperationBulk" where
  "txUpdateDoc h bulk t =
     (let byId = [(''_id'', JStr (objectId t))];
          provenance = [(''modifiedBy'', modifiedBy t), (''modifiedOn'', modifiedOn t),
                        (''%hash%'', JNull)]
      in if isOperator (operations t)
         then
           bindE (js_keys (operations t)) (\<lambda>ks.
             let operator = first_key ks in
             if operator = ''$move''
             then
               bindE (js_get (operations t) ''$move'') (\<lambda>keyval.
               bindE (js_keys keyval) (\<lambda>kks.
                 let arr = first_key kks in
                 bindE (js_get keyval arr) (\<lambda>desc.
                 bindE (js_get desc ''$value'') (\<lambda>val.
                 bindE (js_get desc ''$position'') (\<lambda>pos.
                   let ops =
                     [UpdateOne byId
                        [(''$set'', JObj [(''%hash%'', JNull)]),
                         (''$pull'', JObj [(arr, val)])],
                      UpdateOne byId
                        [(''$set'', JObj provenance),
                         (''$push'', JObj [(arr, JObj [(''$each'', JArr [val]),
                                                        (''$position'', pos)])])]]
                   in Inr (bulk\<lparr>bulkOperations := bulkOperations bulk @ ops\<rparr>))))))
             else if operator = ''$update''
             then
               bindE (js_get (operations t) ''$update'') (\<lambda>keyval.
               bindE (js_keys keyval) (\<lambda>kks.
                 let arr = first_key kks in
                 bindE (js_get keyval arr) (\<lambda>desc.
                 bindE (js_get desc ''$query'') (\<lambda>q.
                 bindE (js_entries q) (\<lambda>qs.
                 bindE (js_get desc ''$update'') (\<lambda>u.
                 bindE (js_entries u) (\<lambda>us.
                   let ops =
                     [UpdateOne
                        (assignAll
                           (assignAll (map (\<lambda>it. (arr @ ''.'' @ fst it, snd it)) qs) [])
                           byId)
                        [(''$set'',
                          JObj (assign ''%hash%'' JNull
                                 (assignAll (map (\<lambda>it. (arr @ ''.$.'' @ fst it, snd it)) us) [])))],
                      UpdateOne byId [(''$set'', JObj provenance)]]
                   in Inr (bulk\<lparr>bulkOperations := bulkOperations bulk @ ops\<rparr>))))))))
             else
               bindE (getDomain h (objectClass t)) (\<lambda>domain.
                 let update' = assign ''$set'' (JObj provenance) (spread (operations t)) in
                 if retrieve t
                 then Inr (bulk\<lparr>raw := raw bulk @ [FindOneAndUpdate domain byId update']\<rparr>)
                 else Inr (bulk\<lparr>bulkOperations :=
                             bulkOperations bulk @ [UpdateOne byId update']\<rparr>)))
         else
           (let bulk' = coalesce bulk (objectId t)
                          (assignAll provenance (spread (operations t)))
            in Inr (if retrieve t
                    then bulk'\<lparr>findUpdate :=
                           (if objectId t \<in> set (findUpdate bulk') then findUpdate bulk'
                            else findUpdate bulk' @ [objectId t])\<rparr>
                    else bulk')))"

text \<open>\<open>updateBulk\<close> with \<open>txCollectionCUD\<close> unfolded into it (the two call each other).
  The second component is what the call wrote with \<^verbatim>\<open>console.error\<close>. A collection
  transaction without a nested transaction fails on \<^verbatim>\<open>tx.tx._class\<close>.\<close>

fun updateBulk ::
  "hierarchy \<Rightarrow> (txfields \<Rightarrow> obj) \<Rightarrow> OperationBulk \<Rightarrow> tx \<Rightarrow> error + (OperationBulk \<times> string list)"
where
  "updateBulk h createDoc2Doc bulk (Tx TxCreateDoc t i) =
     Inr (txCreateDoc createDoc2Doc bulk t, [])"
| "updateBulk h createDoc2Doc bulk (Tx TxCollectionCUD t None) = Inl TypeError"
| "updateBulk h createDoc2Doc bulk (Tx TxCollectionCUD t (Some (Tx c createTx i))) =
     (if c = TxCreateDoc
      then
        (let d = createTx\<lparr>attributes :=
                   JObj (assignAll
                          [(''attachedTo'', JStr (objectId t)),
                           (''attachedToClass'', JStr (objectClass t)),
                           (''collection'', JStr (collection t))]
                          (spread (attributes createTx)))\<rparr>
         in Inr (txCreateDoc createDoc2Doc bulk d, []))
      else updateBulk h createDoc2Doc bulk (Tx c createTx i))"
| "updateBulk h createDoc2Doc bulk (Tx TxUpdateDoc t i) =
     bindE (txUpdateDoc h bulk t) (\<lambda>b. Inr (b, []))"
| "updateBulk h createDoc2Doc bulk (Tx TxRemoveDoc t i) = Inr (txRemoveDoc bulk t, [])"
| "updateBulk h createDoc2Doc bulk (Tx TxMixin t i) =
     bindE (txMixin bulk t) (\<lambda>b. Inr (b, []))"
| "updateBulk h createDoc2Doc bulk (Tx TxApplyIf t i) = Inr (bulk, [])"
| "updateBulk h createDoc2Doc bulk (Tx (TxOther c) t i) =
     Inr (bulk, [''Unknown/Unsupported operation:''])"

subsection \<open>Translating and flushing a batch\<close>

text \<open>A loop whose body may throw: the first error ends it.\<close>

primrec foldE :: "('a \<Rightarrow> 's \<Rightarrow> error + 's) \<Rightarrow> 'a list \<Rightarrow> 's \<Rightarrow> error + 's" where
  "foldE f [] s = Inr s"
| "foldE f (x # xs) s = bindE (f x s) (foldE f xs)"

text \<open>\<^verbatim>\<open>for (const t of txs) this.updateBulk(domainBulk, t)\<close>, collecting the console
  output.\<close>

definition translateAll ::
  "hierarchy \<Rightarrow> (txfields \<Rightarrow> obj) \<Rightarrow> tx list \<Rightarrow> OperationBulk \<times> string list
     \<Rightarrow> error + (OperationBulk \<times> string list)" where
  "translateAll h createDoc2Doc txs st =
     foldE (\<lambda>t st. bindE (updateBulk h createDoc2Doc (fst st) t)
                       (\<lambda>r. Inr (fst r, snd st @ snd r))) txs st"

text \<open>The native calls the adapter issues, in the order it issues them.\<close>

datatype native =
    BulkWrite string "bulkop list"
  | FindByIds string "string list"
  | RawCall rawcall

text \<open>The adapter's own state: the process-wide pending map \<open>bulkOps\<close>, and what it has
  sent to the database and written to the console so far.\<close>

record adapter =
  bulkOps :: "(string \<times> bulkop list) list"
  calls :: "native list"
  console :: "string list"

text \<open>\<open>_pushBulk\<close>: take the pending map, clear it, and issue one \<^verbatim>\<open>bulkWrite\<close> for every
  domain with operations.\<close>

definition flushBulk :: "adapter \<Rightarrow> adapter" where
  "flushBulk a =
     (let bulk = bulkOps a
      in fold (\<lambda>entry a'.
                 if snd entry = [] then a'
                 else a'\<lparr>calls := calls a' @ [BulkWrite (fst entry) (snd entry)]\<rparr>)
           bulk (a\<lparr>bulkOps := []\<rparr>))"

definition pushBulk :: "adapter \<Rightarrow> string \<Rightarrow> bulkop list \<Rightarrow> adapter" where
  "pushBulk a domain ops =
     flushBulk
       (case map_of (bulkOps a) domain of
          Some existing \<Rightarrow> a\<lparr>bulkOps := assign domain (existing @ ops) (bulkOps a)\<rparr>
        | None \<Rightarrow> a\<lparr>bulkOps := assign domain ops (bulkOps a)\<rparr>)"

text \<open>Modelled from the spec: \<^verbatim>\<open>TxProcessor.isExtendsCUD\<close> and \<^verbatim>\<open>groupByArray\<close> of the
  core package are not among the sources. The spec's transactions that target a
  document are create, update, remove, mixin-apply and collection-attach; the batch is
  ``grouped by storage domain'', each group keeping the order of the batch.\<close>

definition isExtendsCUD :: "txclass \<Rightarrow> bool" where
  "isExtendsCUD c = (c \<in> {TxCreateDoc, TxCollectionCUD, TxUpdateDoc, TxRemoveDoc, TxMixin})"

definition groupByArray :: "'a list \<Rightarrow> ('a \<Rightarrow> 'k) \<Rightarrow> ('k \<times> 'a list) list" where
  "groupByArray array keyProvider =
     fold (\<lambda>item result.
             case map_of result (keyProvider item) of
               Some arr \<Rightarrow> assign (keyProvider item) (arr @ [item]) result
             | None \<Rightarrow> assign (keyProvider item) [item] result)
       array []"

text \<open>The final operation list of one domain, as \<open>tx\<close> assembles it from the bulk.\<close>

definition assembleOps :: "OperationBulk \<Rightarrow> bulkop list" where
  "assembleOps domainBulk =
     (let ops = [];
          ops = (if length (add domainBulk) > 0
                 then ops @ map InsertOne (add domainBulk) else ops);
          ops = (if length (update domainBulk) > 0
                 then ops @ map (\<lambda>it. UpdateOne [(''_id'', JStr (fst it))]
                                                    [(''$set'', JObj (snd it))])
                               (update domainBulk)
                 else ops);
          ops = (if length (bulkOperations domainBulk) > 0
                 then ops @ bulkOperations domainBulk else ops)
      in ops)"

text \<open>The body of the loop of \<open>tx\<close> over the domains.\<close>

definition txDomain ::
  "hierarchy \<Rightarrow> (txfields \<Rightarrow> obj) \<Rightarrow> string option \<times> tx list \<Rightarrow> adapter \<Rightarrow> error + adapter"
where
  "txDomain h createDoc2Doc entry a =
     (case fst entry of
        None \<Rightarrow> Inr a
      | Some domain \<Rightarrow>
          bindE (translateAll h createDoc2Doc (snd entry) (emptyBulk, [])) (\<lambda>r.
            let domainBulk = fst r;
                a = a\<lparr>console := console a @ snd r\<rparr>
            in if length (add domainBulk) = 0 \<and> length (update domainBulk) = 0 \<and>
                  length (bulkOperations domainBulk) = 0 \<and>
                  length (findUpdate domainBulk) = 0 \<and> length (raw domainBulk) = 0
               then Inr a
               else
                 (let ops = assembleOps domainBulk;
                      a = (if length ops > 0 then pushBulk a domain ops else a);
                      a = (if length (findUpdate domainBulk) > 0
                           then a\<lparr>calls := calls a @ [FindByIds domain (findUpdate domainBulk)]\<rparr>
                           else a);
                      a = (if length (raw domainBulk) > 0
                           then a\<lparr>calls := calls a @ map RawCall (raw domainBulk)\<rparr>
                           else a)
                  in Inr a)))"

definition tx :: "hierarchy \<Rightarrow> (txfields \<Rightarrow> obj) \<Rightarrow> adapter \<Rightarrow> tx list \<Rightarrow> error + adapter" where
  "tx h createDoc2Doc a txes =
     (let byDomain = groupByArray txes
            (\<lambda>it. if isExtendsCUD (tx_class it) then findDomain h (objectClass (tx_fields it))
                   else None)
      in foldE (txDomain h createDoc2Doc) byDomain a)"

subsection \<open>Classifying transactions, operations and calls\<close>

definition isCreate :: "tx \<Rightarrow> bool" where
  "isCreate t = (tx_class t = TxCreateDoc)"

definition isFlatUpdate :: "tx \<Rightarrow> bool" where
  "isFlatUpdate t = (tx_class t = TxUpdateDoc \<and> \<not> isOperator (operations (tx_fields t)))"

fun isInsertOne :: "bulkop \<Rightarrow> bool" where
  "isInsertOne (InsertOne d) = True"
| "isInsertOne _ = False"

fun isUpdateOne :: "bulkop \<Rightarrow> bool" where
  "isUpdateOne (UpdateOne f u) = True"
| "isUpdateOne _ = False"

fun isBulkWrite :: "native \<Rightarrow> bool" where
  "isBulkWrite (BulkWrite d ops) = True"
| "isBulkWrite _ = False"

section \<open>Digest handling outside the transaction translator\<close>

text \<open>\<open>stripHash\<close>, on one document and on an array of documents.\<close>

definition stripHashDoc :: "obj \<Rightarrow> obj" where
  "stripHashDoc doc = (if has_key ''%hash%'' doc then delete_key ''%hash%'' doc else doc)"

definition stripHash :: "obj list \<Rightarrow> obj list" where
  "stripHash docs = map stripHashDoc docs"

text \<open>\<^verbatim>\<open>n.toString(16)\<close> for a non-negative integer.\<close>

definition hexDigit :: "nat \<Rightarrow> char" where
  "hexDigit d = (if d < 10 then char_of (48 + d) else char_of (87 + d))"

fun toHex :: "nat \<Rightarrow> string" where
  "toHex n = (if n < 16 then [hexDigit n] else toHex (n div 16) @ [hexDigit (n mod 16)])"

declare toHex.simps [simp del]

text \<open>\<^verbatim>\<open>xs.join(sep)\<close>.\<close>

fun join :: "string \<Rightarrow> string list \<Rightarrow> string" where
  "join sep [] = []"
| "join sep [x] = x"
| "join sep (x # y # ys) = x @ sep @ join sep (y # ys)"










section \<open>The database's update operators\<close>

text \<open>
  What the emitted operations do to a document is the database's business, not the
  adapter's. The operators the claims speak of are modelled here as the database
  documents them, on the fragment the claims need: \<^verbatim>\<open>$set\<close> on a dotted path through
  embedded documents (a path that runs into a value that is no document is a write
  error; paths through arrays are left out), \<^verbatim>\<open>$pull\<close> of a value, and \<^verbatim>\<open>$push\<close> of one
  value with \<^verbatim>\<open>$each\<close> and \<^verbatim>\<open>$position\<close>.
\<close>

datatype dberror = WriteError

text \<open>\<^verbatim>\<open>s.split(c)\<close> for a separator of one character.\<close>

fun split_on :: "char \<Rightarrow> string \<Rightarrow> string list" where
  "split_on c [] = [[]]"
| "split_on c (x # xs) =
     (if x = c then [] # split_on c xs
      else (case split_on c xs of [] \<Rightarrow> [[x]] | w # ws \<Rightarrow> (x # w) # ws))"

fun set_path :: "string list \<Rightarrow> json \<Rightarrow> obj \<Rightarrow> dberror + obj" where
  "set_path [] v d = Inl WriteError"
| "set_path [k] v d = Inr (assign k v d)"
| "set_path (k # ks) v d =
     (case map_of d k of
        None \<Rightarrow>
          (case set_path ks v [] of Inl e \<Rightarrow> Inl e | Inr sub \<Rightarrow> Inr (assign k (JObj sub) d))
      | Some (JObj sub) \<Rightarrow>
          (case set_path ks v sub of Inl e \<Rightarrow> Inl e | Inr sub' \<Rightarrow> Inr (assign k (JObj sub') d))
      | Some _ \<Rightarrow> Inl WriteError)"

text \<open>\<^verbatim>\<open>{ $set: payload }\<close> applied to a document.\<close>

fun apply_set :: "obj \<Rightarrow> obj \<Rightarrow> dberror + obj" where
  "apply_set [] d = Inr d"
| "apply_set (kv # rest) d =
     (case set_path (split_on CHR ''.'' (fst kv)) (snd kv) d of
        Inl e \<Rightarrow> Inl e
      | Inr d' \<Rightarrow> apply_set rest d')"

text \<open>Reading \<^verbatim>\<open>d.k1.k2...\<close>.\<close>

fun get_path :: "json \<Rightarrow> string list \<Rightarrow> json" where
  "get_path v [] = v"
| "get_path (JObj d) (k # ks) = get_path (get_prop d k) ks"
| "get_path _ (k # ks) = JUndefined"

text \<open>\<^verbatim>\<open>$pull\<close> of a value and \<^verbatim>\<open>$push\<close> of one value at a position on an array: a
  position from the start is cut to the length, a negative one counts from the end.\<close>

definition pull :: "'a \<Rightarrow> 'a list \<Rightarrow> 'a list" where
  "pull v xs = filter (\<lambda>x. x \<noteq> v) xs"

definition push_at :: "'a \<Rightarrow> int \<Rightarrow> 'a list \<Rightarrow> 'a list" where
  "push_at v p xs =
     (let n = int (length xs);
          i = nat (if 0 \<le> p then min p n else max 0 (n + p))
      in take i xs @ [v] @ drop i xs)"

section \<open>Like queries\<close>

text \<open>Modelled from the spec: \<^verbatim>\<open>escapeLikeForRegexp\<close> of the core package is not among the
  sources. The spec has the non-wildcard segments compiled by ``escaping all literal
  regex metacharacters'': every metacharacter gets a backslash before it, every other
  character stays.\<close>

definition regexMeta :: "char list" where
  "regexMeta = [CHR 0x5C, CHR ''-'', CHR ''/'', CHR ''^'', CHR ''$'', CHR ''*'', CHR ''+'',
                CHR ''?'', CHR ''.'', CHR ''('', CHR '')'', CHR ''|'', CHR ''['', CHR '']'',
                CHR ''{'', CHR ''}'']"

definition escapeLikeForRegexp :: "string \<Rightarrow> string" where
  "escapeLikeForRegexp s =
     concat (map (\<lambda>c. if c \<in> set regexMeta then [CHR 0x5C, c] else [c]) s)"

text \<open>\<open>translateLikeQuery\<close>: the \<^verbatim>\<open>$regex\<close> and the \<^verbatim>\<open>$options\<close> of the compiled pattern.\<close>

record regexQuery =
  regex :: string
  regexOptions :: string

definition translateLikeQuery :: "string \<Rightarrow> regexQuery" where
  "translateLikeQuery pattern =
     \<lparr>regex = ''^'' @ join ''.*'' (map escapeLikeForRegexp (split_on CHR ''%'' pattern)) @ ''$'',
      regexOptions = ''i''\<rparr>"


text \<open>
  What a compiled pattern matches is the business of the database's regular expression
  engine (PCRE). The fragment that \<open>translateLikeQuery\<close> produces is read here as the
  engine reads it: after \<^verbatim>\<open>^\<close> and before the final \<^verbatim>\<open>$\<close>, a backslash makes the next
  character a literal, \<^verbatim>\<open>.*\<close> is any run of characters other than a line feed, a
  metacharacter on its own is outside the fragment, and any other character is a
  literal. With the option \<^verbatim>\<open>i\<close> literals match without regard to the case of ASCII
  letters. With no further option, \<^verbatim>\<open>^\<close> is the start of the string and \<^verbatim>\<open>$\<close> is its
  end or the place before a line feed that ends it.
\<close>

datatype rtok = Lit char | AnyStar

fun lexRegex :: "string \<Rightarrow> rtok list option" where
  "lexRegex [] = Some []"
| "lexRegex [c] = (if c \<in> set regexMeta then None else Some [Lit c])"
| "lexRegex (c # d # rest) =
     (if c = CHR 0x5C then map_option (Cons (Lit d)) (lexRegex rest)
      else if c = CHR ''.'' \<and> d = CHR ''*'' then map_option (Cons AnyStar) (lexRegex rest)
      else if c \<in> set regexMeta then None
      else map_option (Cons (Lit c)) (lexRegex (d # rest)))"






section \<open>The change-hash iterator\<close>

text \<open>\<^verbatim>\<open>s.indexOf(c)\<close>, \<^verbatim>\<open>s.slice(0, e)\<close> (a negative end counts from the end of the string)
  and \<^verbatim>\<open>s.slice(b)\<close> for a start that is not negative.\<close>

fun indexOf :: "char \<Rightarrow> string \<Rightarrow> int" where
  "indexOf c [] = - 1"
| "indexOf c (x # xs) = (if x = c then 0 else (let i = indexOf c xs in if i < 0 then - 1 else i + 1))"

definition sliceTo :: "string \<Rightarrow> int \<Rightarrow> string" where
  "sliceTo s e = (if e < 0 then take (nat (int (length s) + e)) s else take (nat e) s)"

definition sliceFrom :: "string \<Rightarrow> int \<Rightarrow> string" where
  "sliceFrom s b = drop (nat b) s"

text \<open>\<^verbatim>\<open>parseInt(s, 16)\<close>: leading white space is skipped, then an optional sign and an
  optional \<^verbatim>\<open>0x\<close>, then the longest run of hexadecimal digits is read; without a digit
  the result is \<^verbatim>\<open>NaN\<close>, here \<open>None\<close>. (White space is the ASCII one; integers are
  unbounded, where JavaScript rounds beyond 53 bits.)\<close>

definition hexVal :: "char \<Rightarrow> nat option" where
  "hexVal c =
     (let n = of_char c :: nat
      in if 48 \<le> n \<and> n \<le> 57 then Some (n - 48)
         else if 97 \<le> n \<and> n \<le> 102 then Some (n - 87)
         else if 65 \<le> n \<and> n \<le> 70 then Some (n - 55)
         else None)"

definition isSpace :: "char \<Rightarrow> bool" where
  "isSpace c = (c \<in> {CHR 0x09, CHR 0x0A, CHR 0x0B, CHR 0x0C, CHR 0x0D, CHR 0x20})"

definition hexValue :: "string \<Rightarrow> nat" where
  "hexValue ds = foldl (\<lambda>acc c. 16 * acc + (case hexVal c of Some d \<Rightarrow> d | None \<Rightarrow> 0)) 0 ds"

definition parseInt16 :: "string \<Rightarrow> int option" where
  "parseInt16 s =
     (let s = dropWhile isSpace s;
          negative = (s \<noteq> [] \<and> hd s = CHR ''-'');
          s = (if s \<noteq> [] \<and> (hd s = CHR ''-'' \<or> hd s = CHR ''+'') then tl s else s);
          s = (if take 2 s = ''0x'' \<or> take 2 s = ''0X'' then drop 2 s else s);
          ds = takeWhile (\<lambda>c. hexVal c \<noteq> None) s
      in if ds = [] then None
         else Some (if negative then - int (hexValue ds) else int (hexValue ds)))"

datatype iterMode = Hashed | NonHashed

record changeRecord =
  r_id :: json
  r_hash :: string
  r_size :: "int option"

text \<open>The closure of \<open>find\<close>: the mode, the cursor (none before the first \<open>next\<close>; a
  cursor is modelled by the documents that matched when it was opened), and the
  write-back buffer \<open>bulkUpdate\<close>; with it the collection and the batches written to it
  with \<^verbatim>\<open>bulkWrite\<close>.\<close>

record iter =
  mode :: iterMode
  iterator :: "obj list option"
  bulkUpdate :: "(json \<times> string) list"
  coll :: "obj list"
  written :: "(json \<times> string) list list"

text \<open>What \<open>find\<close> is given: \<open>recheck\<close>, and the hash and size functions
  (\<^verbatim>\<open>options.calculateHash\<close> or the SHA-256 of \<^verbatim>\<open>updateHashForDoc\<close>, and
  \<^verbatim>\<open>estimateDocSize\<close>; both are outside the sources).\<close>

record findParams =
  recheck :: bool
  calculateHash :: "obj \<Rightarrow> string"
  estimateDocSize :: "obj \<Rightarrow> nat"

text \<open>The database side: the two filters on the digest, the projection of the first
  cursor, the invalidation of \<open>recheck\<close>, and the write-back of a batch.\<close>

definition isHashed :: "obj \<Rightarrow> bool" where
  "isHashed d = (get_prop d ''%hash%'' \<notin> {JUndefined, JNull, JStr []})"

definition projectDigest :: "obj \<Rightarrow> obj" where
  "projectDigest d = filter (\<lambda>kv. fst kv = ''%hash%'' \<or> fst kv = ''_id'') d"

definition invalidateAll :: "obj list \<Rightarrow> obj list" where
  "invalidateAll ds =
     map (\<lambda>d. if get_prop d ''%hash%'' \<notin> {JUndefined, JNull} then assign ''%hash%'' JNull d
               else d) ds"

fun writeDigest :: "json \<times> string \<Rightarrow> obj list \<Rightarrow> obj list" where
  "writeDigest e [] = []"
| "writeDigest e (d # ds) =
     (if get_prop d ''_id'' = fst e then assign ''%hash%'' (JStr (snd e)) d # ds
      else d # writeDigest e ds)"

definition flush :: "bool \<Rightarrow> iter \<Rightarrow> iter" where
  "flush flag st =
     (if length (bulkUpdate st) > 1000 \<or> flag
      then (let st = (if length (bulkUpdate st) > 0
                      then st\<lparr>written := written st @ [bulkUpdate st],
                              coll := fold writeDigest (bulkUpdate st) (coll st)\<rparr>
                      else st)
            in st\<lparr>bulkUpdate := []\<rparr>)
      else st)"

text \<open>\<^verbatim>\<open>iterator.next()\<close> on the modelled cursor. In \<open>next\<close> a stored digest that is
  neither a string nor \<^verbatim>\<open>null\<close> is outside the stored format; the model has the
  TypeError that \<^verbatim>\<open>indexOf\<close> raises on it (an array, which has an \<^verbatim>\<open>indexOf\<close> of its
  own, is taken with the rest).\<close>

definition fetch :: "iter \<Rightarrow> obj option \<times> iter" where
  "fetch st =
     (case iterator st of
        Some (d # rest) \<Rightarrow> (Some d, st\<lparr>iterator := Some rest\<rparr>)
      | _ \<Rightarrow> (None, st))"

text \<open>\<open>next\<close> in its three steps: open the first cursor if there is none yet, take the
  next document (going over to the second cursor when the first is exhausted), and make
  the record of the document.\<close>

definition openCursor :: "findParams \<Rightarrow> iter \<Rightarrow> iter" where
  "openCursor p st =
     (case iterator st of
        Some c \<Rightarrow> st
      | None \<Rightarrow>
          (let st = (if recheck p then st\<lparr>coll := invalidateAll (coll st)\<rparr> else st)
           in st\<lparr>iterator := Some (map projectDigest (filter isHashed (coll st)))\<rparr>))"

definition advance :: "iter \<Rightarrow> obj option \<times> iter" where
  "advance st =
     (let r = fetch st
      in if fst r = None \<and> mode (snd r) = Hashed
         then fetch ((snd r)\<lparr>mode := NonHashed,
                             iterator := Some (filter (\<lambda>d. \<not> isHashed d) (coll (snd r)))\<rparr>)
         else r)"

definition yield :: "findParams \<Rightarrow> obj \<Rightarrow> iter \<Rightarrow> error + (changeRecord option \<times> iter)" where
  "yield p d st =
     (let digest = get_prop d ''%hash%'';
          d = (if has_key ''%hash%'' d then delete_key ''%hash%'' d else d)
      in if digest = JNull \<or> digest = JUndefined \<or> digest = JStr []
         then
           (let size = estimateDocSize p d;
                digest = calculateHash p d;
                st = st\<lparr>bulkUpdate :=
                       assign (get_prop d ''_id'') (digest @ ''|'' @ toHex size)
                         (bulkUpdate st)\<rparr>;
                st = flush False st
            in Inr (Some \<lparr>r_id = get_prop d ''_id'', r_hash = digest,
                           r_size = Some (int size)\<rparr>, st))
         else
           (case digest of
              JStr s \<Rightarrow>
                (let pos = indexOf CHR ''|'' s
                 in Inr (Some \<lparr>r_id = get_prop d ''_id'', r_hash = sliceTo s pos,
                                r_size = parseInt16 (sliceFrom s (pos + 1))\<rparr>, st))
            | _ \<Rightarrow> Inl TypeError))"

definition iter_next :: "findParams \<Rightarrow> iter \<Rightarrow> error + (changeRecord option \<times> iter)" where
  "iter_next p st =
     (let r = advance (openCursor p st)
      in case fst r of
           None \<Rightarrow> Inr (None, snd r)
         | Some d \<Rightarrow> yield p d (snd r))"

text \<open>\<open>close\<close>: the forced flush (closing the cursor changes nothing that is modelled; a
  \<open>close\<close> before the first \<open>next\<close> finds no cursor to close and raises after the flush).\<close>

definition iter_close :: "iter \<Rightarrow> iter" where
  "iter_close st = flush True st"

section \<open>Queries\<close>

text \<open>Modelled from the spec: the identifiers \<^verbatim>\<open>core.class.Doc\<close> (``the hierarchy's universal
  root'') and \<^verbatim>\<open>core.class.EnumOf\<close> (the type of an ``enumerated-type attribute'') of the
  core plugin are not among the sources. Only their identity matters.\<close>

definition core_class_Doc :: string where
  "core_class_Doc = ''core:class:Doc''"

definition core_class_EnumOf :: string where
  "core_class_EnumOf = ''core:class:EnumOf''"

text \<open>The options of \<open>findAll\<close> the adapter reads.\<close>

record findOptions =
  o_lookup :: json
  o_sort :: "obj option"
  o_limit :: "int option"
  o_projection :: "obj option"
  o_total :: bool
  o_skipSpace :: bool
  o_skipClass :: bool
  o_domain :: "string option"

definition isLookupQuery :: "obj \<Rightarrow> bool" where
  "isLookupQuery query = list_ex (\<lambda>kv. str_includes (fst kv) ''$lookup.'') query"

definition isLookupSort :: "obj option \<Rightarrow> bool" where
  "isLookupSort sort' =
     (case sort' of None \<Rightarrow> False
      | Some s \<Rightarrow> list_ex (\<lambda>kv. str_includes (fst kv) ''$lookup.'') s)"

text \<open>\<open>checkMixinKey\<close>; the set of mixins is a list without repetitions. \<open>findAttribute\<close>
  is taken by its signature, an attribute or nothing.\<close>

definition checkMixinKey ::
  "hierarchy \<Rightarrow> string \<Rightarrow> string \<Rightarrow> string list \<Rightarrow> string \<times> string list" where
  "checkMixinKey h key clazz mixins =
     (if \<not> str_includes key ''.''
      then (case findAttribute h clazz key of
              Some attr \<Rightarrow>
                if isMixin h (attributeOf attr)
                then (attributeOf attr @ ''.'' @ key,
                      if attributeOf attr \<in> set mixins then mixins
                      else mixins @ [attributeOf attr])
                else (key, mixins)
            | None \<Rightarrow> (key, mixins))
      else (key, mixins))"

text \<open>The loop of \<open>translateKey\<close> over the segments from index \<open>i\<close> on; \<open>n\<close> is the number
  of segments. After \<^verbatim>\<open>$lookup\<close> the next segment is consumed with it (\<^verbatim>\<open>arr[++i]\<close>, the
  text \<^verbatim>\<open>undefined\<close> when there is none).\<close>

fun translateKeyLoop ::
  "hierarchy \<Rightarrow> string \<Rightarrow> nat \<Rightarrow> nat \<Rightarrow> string list \<Rightarrow> string \<times> bool \<times> string list
     \<Rightarrow> string \<times> bool \<times> string list" where
  "translateKeyLoop h clazz n i [] acc = acc"
| "translateKeyLoop h clazz n i (element # rest) (tKey, lookup, mixins) =
     (if element = ''$lookup''
      then
        (let tKey = tKey @ (case rest of [] \<Rightarrow> ''undefined'' | x # xs \<Rightarrow> x) @ ''_lookup'';
             r = checkMixinKey h tKey clazz mixins
         in translateKeyLoop h clazz n (i + 2) (tl rest) (fst r, True, snd r))
      else
        (let tKey = (if \<not> endsWith tKey ''.'' \<and> i > 0 then tKey @ ''.'' else tKey);
             tKey = tKey @ element;
             tKey = (if i \<noteq> n - 1 then tKey @ ''.'' else tKey);
             r = checkMixinKey h tKey clazz mixins
         in translateKeyLoop h clazz n (i + 1) rest (fst r, lookup, snd r)))"

definition translateKey ::
  "hierarchy \<Rightarrow> string \<Rightarrow> string \<Rightarrow> string list \<Rightarrow> string \<times> bool \<times> string list" where
  "translateKey h key clazz mixins =
     (let arr = filter (\<lambda>p. p \<noteq> []) (split_on CHR ''.'' key)
      in translateKeyLoop h clazz (length arr) 0 arr ([], False, mixins))"

text \<open>The compiled pattern as the filter holds it.\<close>

definition regexJson :: "regexQuery \<Rightarrow> json" where
  "regexJson q = JObj [(''$regex'', JStr (regex q)), (''$options'', JStr (regexOptions q))]"

text \<open>\<^verbatim>\<open>typeof v === 'object'\<close>.\<close>

fun typeofObject :: "json \<Rightarrow> bool" where
  "typeofObject (JObj kvs) = True"
| "typeofObject (JArr xs) = True"
| "typeofObject JNull = True"
| "typeofObject _ = False"

text \<open>\<open>translateQuery\<close>, first part: the loop over the fields of the query, which fills
  the base filter, the lookup filter and the set of mixins. A \<^verbatim>\<open>$like\<close> whose pattern is
  no string fails on \<^verbatim>\<open>pattern.split\<close>.\<close>

definition translateField ::
  "hierarchy \<Rightarrow> string \<Rightarrow> string \<times> json \<Rightarrow> obj \<times> obj \<times> string list
     \<Rightarrow> error + (obj \<times> obj \<times> string list)" where
  "translateField h clazz kv st =
     (let value = snd kv;
          tkey = translateKey h (fst kv) clazz (snd (snd st));
          store = (\<lambda>v. if fst (snd tkey)
                        then (fst st, assign (fst tkey) v (fst (snd st)), snd (snd tkey))
                        else (assign (fst tkey) v (fst st), fst (snd st), snd (snd tkey)))
      in if value \<noteq> JNull \<and> typeofObject value
         then bindE (js_keys value) (\<lambda>keys.
                if keys \<noteq> [] \<and> hd keys = ''$like''
                then bindE (js_get value ''$like'') (\<lambda>p.
                       case p of
                         JStr pattern \<Rightarrow> Inr (store (regexJson (translateLikeQuery pattern)))
                       | _ \<Rightarrow> Inl TypeError)
                else Inr (store value))
         else Inr (store value))"

definition translateFields ::
  "hierarchy \<Rightarrow> string \<Rightarrow> obj \<Rightarrow> error + (obj \<times> obj \<times> string list)" where
  "translateFields h clazz query = foldE (translateField h clazz) query ([], [], [])"

text \<open>The class constraint that replaces an include/exclude object: the descendants,
  cut down to the \<^verbatim>\<open>$in\<close> array and without the \<^verbatim>\<open>$nin\<close> array if they are there.\<close>

definition narrowClasses :: "hierarchy \<Rightarrow> string list \<Rightarrow> json \<Rightarrow> json" where
  "narrowClasses h classes c =
     (let descendants = map JStr classes;
          descendants = (case get_prop (spread c) ''$in'' of
                           JArr ins \<Rightarrow> filter (\<lambda>x. x \<in> set (map JStr classes)) ins
                         | _ \<Rightarrow> descendants);
          descendants = (case get_prop (spread c) ''$nin'' of
                           JArr nins \<Rightarrow> filter (\<lambda>x. x \<notin> set nins) descendants
                         | _ \<Rightarrow> descendants);
          desc = filter (\<lambda>it. case it of JStr s \<Rightarrow> \<not> isMixin h s | _ \<Rightarrow> True) descendants
      in case desc of [x] \<Rightarrow> x | _ \<Rightarrow> JObj [(''$in'', JArr desc)])"

text \<open>\<open>translateQuery\<close>, second part, in its steps. The class constraint of the base
  filter scoped to the concrete descendants \<open>classes\<close>:\<close>

definition scopeToClasses :: "hierarchy \<Rightarrow> string list \<Rightarrow> obj \<Rightarrow> obj" where
  "scopeToClasses h classes translatedBase =
     (case get_prop translatedBase ''_class'' of
        JUndefined \<Rightarrow>
          assign ''_class'' (JObj [(''$in'', JArr (map JStr classes))]) translatedBase
      | JStr s \<Rightarrow>
          if s \<notin> set classes
          then assign ''_class''
                 (case classes of [x] \<Rightarrow> JStr x
                  | _ \<Rightarrow> JObj [(''$in'', JArr (map JStr classes))])
                 translatedBase
          else translatedBase
      | JObj kvs \<Rightarrow> assign ''_class'' (narrowClasses h classes (JObj kvs)) translatedBase
      | JArr xs \<Rightarrow> assign ''_class'' (narrowClasses h classes (JArr xs)) translatedBase
      | _ \<Rightarrow> translatedBase)"

text \<open>The last step, an include set of one and no exclude set becomes the one value
  (\<^verbatim>\<open>_class?.$in?.length === 1 && _class?.$nin === undefined\<close>):\<close>

definition collapseSingle :: "obj \<Rightarrow> obj" where
  "collapseSingle translatedBase =
     (case get_prop translatedBase ''_class'' of
        JObj kvs \<Rightarrow>
          (if get_prop kvs ''$nin'' = JUndefined
           then (case get_prop kvs ''$in'' of
                   JArr [x] \<Rightarrow> assign ''_class'' x translatedBase
                 | JStr [ch] \<Rightarrow> assign ''_class'' (JStr [ch]) translatedBase
                 | _ \<Rightarrow> translatedBase)
           else translatedBase)
      | _ \<Rightarrow> translatedBase)"

text \<open>And the whole: \<open>skipSpace\<close>, \<open>skipClass\<close>, the class scope with the mixin guard
  unless the base class is the root, the collapse.\<close>

definition classScope ::
  "hierarchy \<Rightarrow> string \<Rightarrow> findOptions option \<Rightarrow> obj \<times> obj \<times> string list \<Rightarrow> obj \<times> obj" where
  "classScope h clazz options st =
     (let translatedBase = fst st;
          translatedLookup = fst (snd st);
          mixins = snd (snd st);
          translatedBase =
            (if (case options of Some opt \<Rightarrow> o_skipSpace opt | None \<Rightarrow> False)
             then delete_key ''space'' translatedBase else translatedBase)
      in if (case options of Some opt \<Rightarrow> o_skipClass opt | None \<Rightarrow> False)
         then (delete_key ''_class'' translatedBase, translatedLookup)
         else
           (let baseClass = getBaseClass h clazz;
                translatedBase =
                  (if baseClass \<noteq> core_class_Doc
                   then
                     (let classes = filter (\<lambda>it. \<not> isMixin h it) (getDescendants h baseClass);
                          translatedBase = scopeToClasses h classes translatedBase
                      in if baseClass \<noteq> clazz \<and> clazz \<notin> set mixins
                         then assign clazz (JObj [(''$exists'', JBool True)]) translatedBase
                         else translatedBase)
                   else if has_key ''_class'' translatedBase
                        then delete_key ''_class'' translatedBase
                        else translatedBase)
            in (collapseSingle translatedBase, translatedLookup)))"

definition translateQuery ::
  "hierarchy \<Rightarrow> string \<Rightarrow> obj \<Rightarrow> findOptions option \<Rightarrow> error + (obj \<times> obj)" where
  "translateQuery h clazz query options =
     bindE (translateFields h clazz query) (\<lambda>st. Inr (classScope h clazz options st))"

definition isEnumSort :: "hierarchy \<Rightarrow> string \<Rightarrow> findOptions option \<Rightarrow> bool" where
  "isEnumSort h clazz options =
     (case options of
        None \<Rightarrow> False
      | Some opt \<Rightarrow>
          (case o_sort opt of
             None \<Rightarrow> False
           | Some s \<Rightarrow>
               list_ex (\<lambda>kv. case findAttribute h clazz (fst kv) of
                                Some attr \<Rightarrow> typeClass attr = core_class_EnumOf
                              | None \<Rightarrow> False) s))"

definition isRulesSort :: "findOptions option \<Rightarrow> bool" where
  "isRulesSort options =
     (case options of
        None \<Rightarrow> False
      | Some opt \<Rightarrow>
          (case o_sort opt of
             None \<Rightarrow> False
           | Some s \<Rightarrow> list_ex (\<lambda>kv. typeofObject (snd kv)) s))"

text \<open>What \<open>findAll\<close> does for its documents once the query is translated and the
  domain is known (the domain of the options, or that of the class, which
  \<open>getDomain\<close> may not have): it hands over to \<open>findWithPipeline\<close> (with its
  \<open>slowPipeline\<close> flag, joins before sort and limit), or calls \<^verbatim>\<open>findOne\<close> with its
  filter, or \<^verbatim>\<open>find\<close> with its filter. The stages of \<open>findWithPipeline\<close> are not
  modelled: building them it can still throw before it reaches the database, on a
  custom-rules sort value without \<^verbatim>\<open>cases\<close> and on a lookup class without a domain.\<close>

datatype findCall = Aggregate bool | FindOneCall obj | FindCursorCall obj

fun isString :: "json \<Rightarrow> bool" where
  "isString (JStr s) = True"
| "isString _ = False"

definition findAll ::
  "hierarchy \<Rightarrow> string \<Rightarrow> obj \<Rightarrow> findOptions option \<Rightarrow> error + findCall" where
  "findAll h clazz query options =
     bindE (translateQuery h clazz query options) (\<lambda>mongoQuery.
     bindE (case (case options of Some opt \<Rightarrow> o_domain opt | None \<Rightarrow> None) of
              Some d \<Rightarrow> Inr d
            | None \<Rightarrow> getDomain h clazz) (\<lambda>domain.
       let fQuery = assignAll (snd mongoQuery) (fst mongoQuery) in
       if options \<noteq> None \<and>
          ((case options of Some opt \<Rightarrow> o_lookup opt \<noteq> JNull \<and> o_lookup opt \<noteq> JUndefined
            | None \<Rightarrow> False)
           \<or> isEnumSort h clazz options \<or> isRulesSort options)
       then Inr (Aggregate
                  (isLookupQuery query
                   \<or> isLookupSort (case options of Some opt \<Rightarrow> o_sort opt | None \<Rightarrow> None)))
       else if (case options of Some opt \<Rightarrow> o_limit opt = Some 1 | None \<Rightarrow> False)
               \<or> isString (get_prop query ''_id'')
       then Inr (FindOneCall
                  (if isString (get_prop fQuery ''_id'')
                   then [(''_id'', get_prop fQuery ''_id'')] else fQuery))
       else Inr (FindCursorCall fQuery)))"

text \<open>What the spec gives as the condition of the pipeline path.\<close>

definition specSlowPath :: "hierarchy \<Rightarrow> string \<Rightarrow> obj \<Rightarrow> findOptions option \<Rightarrow> bool" where
  "specSlowPath h clazz query options =
     (isLookupQuery query
      \<or> isLookupSort (case options of Some opt \<Rightarrow> o_sort opt | None \<Rightarrow> None)
      \<or> isRulesSort options \<or> isEnumSort h clazz options)"

text \<open>
  The database side of a filter, on the fragment the class scope needs: a field compared
  with a value, or with an object of the operators \<^verbatim>\<open>$in\<close>, \<^verbatim>\<open>$nin\<close> and \<^verbatim>\<open>$exists\<close> (no
  other operator is modelled, and no document satisfies one); fields are top-level.
\<close>

definition opMatches :: "string \<times> json \<Rightarrow> json \<Rightarrow> bool" where
  "opMatches op v =
     (if fst op = ''$in'' then (case snd op of JArr xs \<Rightarrow> v \<in> set xs | _ \<Rightarrow> False)
      else if fst op = ''$nin'' then (case snd op of JArr xs \<Rightarrow> v \<notin> set xs | _ \<Rightarrow> False)
      else if fst op = ''$exists'' then snd op = JBool (v \<noteq> JUndefined)
      else False)"

definition condMatches :: "json \<Rightarrow> json \<Rightarrow> bool" where
  "condMatches c v =
     (case c of
        JObj ops \<Rightarrow> if isOperator c then list_all (\<lambda>op. opMatches op v) ops else v = c
      | JNull \<Rightarrow> v = JNull \<or> v = JUndefined
      | _ \<Rightarrow> v = c)"

definition docMatches :: "obj \<Rightarrow> obj \<Rightarrow> bool" where
  "docMatches f d = list_all (\<lambda>kv. condMatches (snd kv) (get_prop d (fst kv))) f"

text \<open>Reading \<open>skipClass\<close> off the options, and the concrete descendants of the base
  class of a class.\<close>

definition skipClass :: "findOptions option \<Rightarrow> bool" where
  "skipClass options = (case options of Some opt \<Rightarrow> o_skipClass opt | None \<Rightarrow> False)"

definition concreteDescendants :: "hierarchy \<Rightarrow> string \<Rightarrow> string list" where
  "concreteDescendants h clazz =
     filter (\<lambda>it. \<not> isMixin h it) (getDescendants h (getBaseClass h clazz))"

text \<open>The two shapes of a class constraint after scoping: one class, or an include set
  of classes.\<close>

definition plainClass :: "json \<Rightarrow> bool" where
  "plainClass v = ((\<exists>s. v = JStr s)
     \<or> (\<exists>xs. v = JObj [(''$in'', JArr xs)] \<and> (\<forall>x \<in> set xs. \<exists>s. x = JStr s)))"

text \<open>What a \<^verbatim>\<open>find\<close> without sort, projection and limit returns from a collection, and
  the ids of what \<open>findAll\<close> finds that way.\<close>

definition plainFind :: "findCall \<Rightarrow> obj list \<Rightarrow> obj list option" where
  "plainFind call docs =
     (case call of
        FindCursorCall f \<Rightarrow> Some (stripHash (filter (docMatches f) docs))
      | _ \<Rightarrow> None)"

definition found :: "error + findCall \<Rightarrow> obj list \<Rightarrow> json list option" where
  "found r docs =
     (case r of
        Inr call \<Rightarrow> map_option (map (\<lambda>d. get_prop d ''_id'')) (plainFind call docs)
      | Inl e \<Rightarrow> None)"

section \<open>What the adapter returns\<close>

text \<open>The documents that the adapter hands back. What the database answers to a native
  call is a parameter of these definitions; the adapter's part is what it does to the
  answer.\<close>











section \<open>Example data\<close>

text \<open>A hierarchy with one domain and no mixins, a \<open>createDoc2Doc\<close> that adds the id to
  the attributes, and a transaction on a given object.\<close>

definition h_ex :: hierarchy where
  "h_ex = \<lparr>getBaseClass = (\<lambda>c. c), getDescendants = (\<lambda>c. [c]), isMixin = (\<lambda>c. False),
           findAttribute = (\<lambda>c k. None), findDomain = (\<lambda>c. Some ''task''),
           getDomain = (\<lambda>c. Inr ''task'')\<rparr>"

definition createDoc2Doc_ex :: "txfields \<Rightarrow> obj" where
  "createDoc2Doc_ex t = assign ''_id'' (JStr (objectId t)) (spread (attributes t))"

definition tf_ex :: "string \<Rightarrow> txfields" where
  "tf_ex oid = \<lparr>objectId = oid, objectClass = ''C'', modifiedBy = JStr ''u'',
                modifiedOn = JNum 1, attributes = JObj [], operations = JObj [],
                retrieve = False, mixin = ''M'', collection = ''''\<rparr>"

definition move_ex :: json where
  "move_ex = JObj [(''$move'',
               JObj [(''items'', JObj [(''$value'', JStr ''v''), (''$position'', JNum 0)])])]"

definition idle :: adapter where
  "idle = \<lparr>bulkOps = [], calls = [], console = []\<rparr>"



text \<open>The functions given to \<open>find\<close>, an iterator on a collection of 1001 documents
  without digest that has yielded 1000 of them (they are in its buffer), and a new
  iterator (no cursor yet) on a collection of a hashed and a non-hashed document.\<close>

definition p_ex :: findParams where
  "p_ex = \<lparr>recheck = False, calculateHash = (\<lambda>d. ''h''), estimateDocSize = (\<lambda>d. 0)\<rparr>"

definition st_full :: iter where
  "st_full = \<lparr>mode = NonHashed, iterator = Some [[(''_id'', JNum 1000)]],
              bulkUpdate = map (\<lambda>i. (JNum (int i), ''h|0'')) [0..<1000],
              coll = map (\<lambda>i. [(''_id'', JNum (int i))]) [0..<1001], written = []\<rparr>"

definition st_ex :: iter where
  "st_ex = \<lparr>mode = Hashed, iterator = None, bulkUpdate = [],
            coll = [[(''_id'', JStr ''a''), (''n'', JNum 1), (''%hash%'', JStr ''abc|1a'')],
                    [(''_id'', JStr ''b''), (''n'', JNum 2), (''%hash%'', JNull)]],
            written = []\<rparr>"

text \<open>Options that ask for nothing, and a hierarchy in which \<open>B\<close> descends from \<open>A\<close>, with
  one document of each class.\<close>

definition opts_ex :: findOptions where
  "opts_ex = \<lparr>o_lookup = JUndefined, o_sort = None, o_limit = None, o_projection = None,
              o_total = False, o_skipSpace = False, o_skipClass = False, o_domain = None\<rparr>"

definition h_AB :: hierarchy where
  "h_AB = \<lparr>getBaseClass = (\<lambda>c. c),
            getDescendants = (\<lambda>c. if c = ''A'' then [''A'', ''B''] else [c]),
            isMixin = (\<lambda>c. False), findAttribute = (\<lambda>c k. None),
            findDomain = (\<lambda>c. Some ''dom''), getDomain = (\<lambda>c. Inr ''dom'')\<rparr>"

definition docs_AB :: "obj list" where
  "docs_AB = [[(''_id'', JNum 1), (''_class'', JStr ''A'')],
              [(''_id'', JNum 2), (''_class'', JStr ''B'')]]"

section \<open>Verified properties\<close>

subsection \<open>Unsupported transaction kinds\<close>

text \<open>
  C10. \<open>updateBulk\<close> returns at once on a \<open>TxApplyIf\<close>: the Operation Bulk is the one it
  was given and nothing is written to the console. Every other class it does not know
  leaves the bulk as it was too, and writes one error to the console. Neither throws, so
  the loop over the batch goes on with the next transaction.
\<close>

theorem updateBulk_unsupported_ignored:
  "updateBulk h createDoc2Doc bulk (Tx TxApplyIf t i) = Inr (bulk, [])
   \<and> updateBulk h createDoc2Doc bulk (Tx (TxOther c) t i)
       = Inr (bulk, [''Unknown/Unsupported operation:''])
   \<and> translateAll h createDoc2Doc (Tx TxApplyIf t i # rest) (bulk, out)
       = translateAll h createDoc2Doc rest (bulk, out)
   \<and> translateAll h createDoc2Doc (Tx (TxOther c) t i # rest) (bulk, out)
       = translateAll h createDoc2Doc rest (bulk, out @ [''Unknown/Unsupported operation:''])"
  by (simp add: translateAll_def bindE_def)

subsection \<open>Assignment and the coalesced update map\<close>

lemma startsWith_simps [simp]:
  "startsWith s [] = True"
  "startsWith [] (c # p) = False"
  "startsWith (d # s) (c # p) = (d = c \<and> startsWith s p)"
  by (auto simp: startsWith_def)

lemma map_fst_assign:
  "map fst (assign k v ps) = (if k \<in> set (map fst ps) then map fst ps else map fst ps @ [k])"
  by (induction ps) auto

lemma map_of_assign: "map_of (assign k v ps) = (map_of ps)(k \<mapsto> v)"
  by (induction ps) (auto simp: fun_eq_iff)

lemma assembleOps_eq:
  "assembleOps b = map InsertOne (add b)
     @ map (\<lambda>it. UpdateOne [(''_id'', JStr (fst it))] [(''$set'', JObj (snd it))]) (update b)
     @ bulkOperations b"
  by (simp add: assembleOps_def Let_def)

lemma coalesce_fields:
  "add (coalesce b i es) = add b"
  "bulkOperations (coalesce b i es) = bulkOperations b"
  "raw (coalesce b i es) = raw b"
  "findUpdate (coalesce b i es) = findUpdate b"
  "map fst (update (coalesce b i es)) =
     (if i \<in> set (map fst (update b)) then map fst (update b) else map fst (update b) @ [i])"
  by (simp_all add: coalesce_def Let_def map_fst_assign)

lemma coalesce_keys:
  "fst ` set (update (coalesce b i es)) = insert i (fst ` set (update b))"
  using coalesce_fields(5) [of b i es, THEN arg_cong, of set] by (auto split: if_splits)

lemma txMixin_distinct:
  "txMixin b t = Inr b' \<Longrightarrow> distinct (map fst (update b)) \<Longrightarrow> distinct (map fst (update b'))"
  by (auto simp: txMixin_def Let_def bindE_def coalesce_fields split: sum.splits if_splits)

lemma txUpdateDoc_distinct:
  "txUpdateDoc h b t = Inr b' \<Longrightarrow> distinct (map fst (update b))
     \<Longrightarrow> distinct (map fst (update b'))"
  by (auto simp: txUpdateDoc_def Let_def bindE_def coalesce_fields split: sum.splits if_splits)

lemma updateBulk_distinct:
  "updateBulk h c b t = Inr (b', out) \<Longrightarrow> distinct (map fst (update b))
     \<Longrightarrow> distinct (map fst (update b'))"
proof (induction h c b t arbitrary: b' out rule: updateBulk.induct)
  case (3 h createDoc2Doc bulk t c createTx i)
  then show ?case by (auto simp: txCreateDoc_def Let_def split: if_splits)
qed (auto simp: txCreateDoc_def txRemoveDoc_def Let_def bindE_def split: sum.splits
      dest: txMixin_distinct txUpdateDoc_distinct)

lemma translateAll_distinct:
  "translateAll h c txs st = Inr st' \<Longrightarrow> distinct (map fst (update (fst st)))
     \<Longrightarrow> distinct (map fst (update (fst st')))"
proof (induction txs arbitrary: st)
  case Nil
  then show ?case by (simp add: translateAll_def)
next
  case (Cons t txs)
  from Cons.prems(1) obtain b out where
    step: "updateBulk h c (fst st) t = Inr (b, out)"
    and rest: "translateAll h c txs (b, snd st @ out) = Inr st'"
    by (auto simp: translateAll_def bindE_def split: sum.splits)
  from updateBulk_distinct [OF step Cons.prems(2)] Cons.IH [OF rest] show ?case by simp
qed

subsection \<open>The order of the assembled operation list\<close>

text \<open>
  C5, as the code has it. The insert list and the update map of a bulk are filled
  independently, so the id of a created document can be a key of the update map as well;
  what the bulk keeps is one update-map entry per id. \<open>tx\<close> assembles the operation list
  of a domain as the insert entries, then the update-map entries as \<^verbatim>\<open>updateOne\<close> with
  \<^verbatim>\<open>$set\<close>, then the explicit bulk operations: an update-map entry stands before the
  explicit operations on the same id, not after them.
\<close>

theorem bulk_assembly_order:
  assumes "translateAll h createDoc2Doc txs (emptyBulk, []) = Inr (b, out)"
  shows "assembleOps b = map InsertOne (add b)
           @ map (\<lambda>it. UpdateOne [(''_id'', JStr (fst it))] [(''$set'', JObj (snd it))]) (update b)
           @ bulkOperations b
         \<and> distinct (map fst (update b))"
  using translateAll_distinct [OF assms] by (simp add: assembleOps_eq emptyBulk_def)

lemmas eval_bulk =
  translateAll_def bindE_def h_ex_def createDoc2Doc_ex_def tf_ex_def move_ex_def
  txCreateDoc_def txUpdateDoc_def Let_def js_keys_def js_get_def first_key_def get_prop_def
  translateDoc_def emptyBulk_def coalesce_def assignAll_def spread_def

theorem bulk_assembly_order_witness:
  "\<exists>b. translateAll h_ex createDoc2Doc_ex
         [Tx TxUpdateDoc ((tf_ex ''x'')\<lparr>operations := move_ex\<rparr>) None,
          Tx TxUpdateDoc ((tf_ex ''x'')\<lparr>operations := JObj [(''name'', JStr ''n'')]\<rparr>) None]
         (emptyBulk, []) = Inr (b, [])
     \<and> assembleOps b = map InsertOne (add b)
          @ map (\<lambda>it. UpdateOne [(''_id'', JStr (fst it))] [(''$set'', JObj (snd it))]) (update b)
          @ bulkOperations b
     \<and> distinct (map fst (update b))"
proof -
  obtain b where t: "translateAll h_ex createDoc2Doc_ex
         [Tx TxUpdateDoc ((tf_ex ''x'')\<lparr>operations := move_ex\<rparr>) None,
          Tx TxUpdateDoc ((tf_ex ''x'')\<lparr>operations := JObj [(''name'', JStr ''n'')]\<rparr>) None]
         (emptyBulk, []) = Inr (b, [])"
    by (simp add: eval_bulk)
  from bulk_assembly_order [OF t] t show ?thesis by blast
qed

text \<open>
  The claim as the spec states it fails on a create, an array move and a flat update of
  the same object \<open>x\<close>: \<open>x\<close> is the id of an inserted document and a key of the update
  map, and the update-map entry is emitted before the two operations of the move.
\<close>

theorem bulk_order_counterexample:
  "\<exists>b. translateAll h_ex createDoc2Doc_ex
         [Tx TxCreateDoc (tf_ex ''x'') None,
          Tx TxUpdateDoc ((tf_ex ''x'')\<lparr>operations := move_ex\<rparr>) None,
          Tx TxUpdateDoc ((tf_ex ''x'')\<lparr>operations := JObj [(''name'', JStr ''n'')]\<rparr>) None]
         (emptyBulk, []) = Inr (b, [])
     \<and> map (\<lambda>d. get_prop d ''_id'') (add b) = [JStr ''x'']
     \<and> map fst (update b) = [''x'']
     \<and> length (bulkOperations b) = 2
     \<and> assembleOps b \<noteq> map InsertOne (add b) @ bulkOperations b
          @ map (\<lambda>it. UpdateOne [(''_id'', JStr (fst it))] [(''$set'', JObj (snd it))]) (update b)"
  by (simp add: eval_bulk assembleOps_def)

subsection \<open>A batch of creates and flat updates\<close>

lemma step_create:
  "isCreate t \<Longrightarrow>
   updateBulk h c b t = Inr (b\<lparr>add := add b @ [translateDoc (c (tx_fields t))]\<rparr>, [])"
  by (cases t) (simp add: isCreate_def txCreateDoc_def)

lemma step_flat:
  assumes "isFlatUpdate t"
  shows "\<exists>b'. updateBulk h c b t = Inr (b', []) \<and> add b' = add b
           \<and> bulkOperations b' = bulkOperations b \<and> raw b' = raw b
           \<and> set (map fst (update b')) = insert (objectId (tx_fields t)) (set (map fst (update b)))"
  using assms
  by (cases t)
    (auto simp: isFlatUpdate_def txUpdateDoc_def bindE_def Let_def coalesce_fields(1-4)
      coalesce_keys)

lemma translateAll_flat:
  assumes "list_all (\<lambda>t. isCreate t \<or> isFlatUpdate t) txs"
  shows "\<exists>b'. translateAll h c txs (b, out) = Inr (b', out)
           \<and> length (add b') = length (add b) + length (filter isCreate txs)
           \<and> bulkOperations b' = bulkOperations b \<and> raw b' = raw b
           \<and> set (map fst (update b')) =
               set (map fst (update b))
                 \<union> set (map (\<lambda>t. objectId (tx_fields t)) (filter isFlatUpdate txs))"
  using assms
proof (induction txs arbitrary: b)
  case Nil
  then show ?case by (simp add: translateAll_def)
next
  case (Cons t txs)
  have rest: "list_all (\<lambda>t. isCreate t \<or> isFlatUpdate t) txs" using Cons.prems by simp
  have unfold: "\<And>b1. updateBulk h c b t = Inr (b1, []) \<Longrightarrow>
      translateAll h c (t # txs) (b, out) = translateAll h c txs (b1, out)"
    by (simp add: translateAll_def bindE_def)
  show ?case
  proof (cases "isCreate t")
    case True
    then have nf: "\<not> isFlatUpdate t" by (auto simp: isCreate_def isFlatUpdate_def)
    from Cons.IH [OF rest, of "b\<lparr>add := add b @ [translateDoc (c (tx_fields t))]\<rparr>"]
    show ?thesis using True nf unfold [OF step_create [OF True]] by auto
  next
    case False
    then have fl: "isFlatUpdate t" using Cons.prems by simp
    from step_flat [OF fl, of h c b] obtain b1 where
      s: "updateBulk h c b t = Inr (b1, [])" and
      f: "add b1 = add b" "bulkOperations b1 = bulkOperations b" "raw b1 = raw b"
         "set (map fst (update b1)) = insert (objectId (tx_fields t)) (set (map fst (update b)))"
      by blast
    from Cons.IH [OF rest, of b1] show ?thesis using False fl unfold [OF s] f by auto
  qed
qed

lemma groupByArray_step:
  "\<forall>t \<in> set xs. key t = k \<Longrightarrow>
   fold (\<lambda>item result.
             case map_of result (key item) of
               Some arr \<Rightarrow> assign (key item) (arr @ [item]) result
             | None \<Rightarrow> assign (key item) [item] result) xs [(k, acc)] = [(k, acc @ xs)]"
  by (induction xs arbitrary: acc) auto

lemma groupByArray_single:
  "xs \<noteq> [] \<Longrightarrow> \<forall>t \<in> set xs. key t = k \<Longrightarrow> groupByArray xs key = [(k, xs)]"
  by (cases xs) (auto simp: groupByArray_def groupByArray_step)

lemma flushBulk_single:
  "ops \<noteq> [] \<Longrightarrow>
   flushBulk (a\<lparr>bulkOps := [(d, ops)]\<rparr>) = a\<lparr>bulkOps := [], calls := calls a @ [BulkWrite d ops]\<rparr>"
  by (simp add: flushBulk_def Let_def)

lemma pushBulk_idle:
  "bulkOps a = [] \<Longrightarrow> ops \<noteq> [] \<Longrightarrow>
   pushBulk a d ops = a\<lparr>bulkOps := [], calls := calls a @ [BulkWrite d ops]\<rparr>"
  by (simp add: pushBulk_def flushBulk_single)

text \<open>
  C6. A batch of three creates and two flat updates on two distinct ids, in any order,
  all of classes of one domain \<open>d\<close>, given to \<open>tx\<close> while no operation is pending: \<open>tx\<close>
  returns, and the one \<^verbatim>\<open>bulkWrite\<close> it has issued is for \<open>d\<close> and holds five operations,
  three of them inserts and two of them updates. The hypotheses say nothing of the order
  of the five transactions, so the outcome is that of every interleaving.
\<close>

theorem batch_3_creates_2_updates:
  assumes kinds: "list_all (\<lambda>t. isCreate t \<or> isFlatUpdate t) txs"
    and dom: "list_all (\<lambda>t. findDomain h (objectClass (tx_fields t)) = Some d) txs"
    and creates: "length (filter isCreate txs) = 3"
    and updates: "length (filter isFlatUpdate txs) = 2"
    and ids: "distinct (map (\<lambda>t. objectId (tx_fields t)) (filter isFlatUpdate txs))"
    and idle: "bulkOps a = []"
  shows "\<exists>a' ops. tx h createDoc2Doc a txs = Inr a'
           \<and> filter isBulkWrite (calls a') = filter isBulkWrite (calls a) @ [BulkWrite d ops]
           \<and> length ops = 5
           \<and> length (filter isInsertOne ops) = 3
           \<and> length (filter isUpdateOne ops) = 2"
proof -
  from translateAll_flat [OF kinds, of h createDoc2Doc emptyBulk "[]"] obtain b where
    tr: "translateAll h createDoc2Doc txs (emptyBulk, []) = Inr (b, [])"
    and nadd: "length (add b) = 3"
    and nops: "bulkOperations b = []" and nraw: "raw b = []"
    and keys: "set (map fst (update b)) =
                 set (map (\<lambda>t. objectId (tx_fields t)) (filter isFlatUpdate txs))"
    using creates by (auto simp: emptyBulk_def)
  have "distinct (map fst (update b))"
    using translateAll_distinct [OF tr] by (simp add: emptyBulk_def)
  then have "length (update b) = card (set (map fst (update b)))"
    using distinct_card [of "map fst (update b)"] by simp
  also have "\<dots> = 2"
    using keys distinct_card [OF ids] updates by simp
  finally have nupd: "length (update b) = 2" .
  define ops where "ops = assembleOps b"
  have ops_eq: "ops = map InsertOne (add b)
      @ map (\<lambda>it. UpdateOne [(''_id'', JStr (fst it))] [(''$set'', JObj (snd it))]) (update b)"
    by (simp add: ops_def assembleOps_eq nops)
  have len: "length ops = 5" by (simp add: ops_eq nadd nupd)
  have ins: "length (filter isInsertOne ops) = 3"
    by (simp add: ops_eq nadd filter_map comp_def)
  have upd: "length (filter isUpdateOne ops) = 2"
    by (simp add: ops_eq nupd filter_map comp_def)
  have ne: "txs \<noteq> []" using creates by auto
  have grp: "groupByArray txs
            (\<lambda>it. if isExtendsCUD (tx_class it) then findDomain h (objectClass (tx_fields it))
                   else None) = [(Some d, txs)]"
  proof (rule groupByArray_single [OF ne], rule ballI)
    fix t assume t: "t \<in> set txs"
    with kinds have "isCreate t \<or> isFlatUpdate t" by (simp add: list_all_iff)
    then have "isExtendsCUD (tx_class t)"
      by (auto simp: isCreate_def isFlatUpdate_def isExtendsCUD_def)
    moreover from t dom have "findDomain h (objectClass (tx_fields t)) = Some d"
      by (simp add: list_all_iff)
    ultimately show "(if isExtendsCUD (tx_class t) then findDomain h (objectClass (tx_fields t))
                   else None) = Some d" by simp
  qed
  have opsne: "ops \<noteq> []" using len by auto
  have addne: "add b \<noteq> []" using nadd by auto
  define a1 where "a1 = a\<lparr>bulkOps := [], calls := calls a @ [BulkWrite d ops]\<rparr>"
  define a2 where "a2 = (if length (findUpdate b) > 0
                           then a1\<lparr>calls := calls a1 @ [FindByIds d (findUpdate b)]\<rparr>
                           else a1)"
  have "txDomain h createDoc2Doc (Some d, txs) a = Inr a2"
    using tr addne nraw opsne idle
    by (simp add: txDomain_def bindE_def Let_def ops_def [symmetric] pushBulk_idle a2_def a1_def)
  then have "tx h createDoc2Doc a txs = Inr a2"
    by (simp add: tx_def grp bindE_def Let_def)
  moreover have "filter isBulkWrite (calls a2) = filter isBulkWrite (calls a) @ [BulkWrite d ops]"
    by (simp add: a2_def a1_def)
  ultimately show ?thesis using len ins upd by blast
qed

theorem batch_3_creates_2_updates_witness:
  "\<exists>a' ops. tx h_ex createDoc2Doc_ex idle
         [Tx TxCreateDoc (tf_ex ''a'') None,
          Tx TxUpdateDoc ((tf_ex ''x'')\<lparr>operations := JObj [(''name'', JStr ''n'')]\<rparr>) None,
          Tx TxCreateDoc (tf_ex ''b'') None,
          Tx TxUpdateDoc ((tf_ex ''y'')\<lparr>operations := JObj [(''name'', JStr ''m'')]\<rparr>) None,
          Tx TxCreateDoc (tf_ex ''c'') None] = Inr a'
     \<and> filter isBulkWrite (calls a') = filter isBulkWrite (calls idle) @ [BulkWrite ''task'' ops]
     \<and> length ops = 5
     \<and> length (filter isInsertOne ops) = 3
     \<and> length (filter isUpdateOne ops) = 2"
  by (rule batch_3_creates_2_updates)
    (simp_all add: isCreate_def isFlatUpdate_def h_ex_def tf_ex_def idle_def)

subsection \<open>The digest field\<close>






















































subsection \<open>Array moves\<close>

lemma neq_by_length: "length (xs :: 'a list) \<noteq> length ys \<Longrightarrow> xs \<noteq> ys"
  by auto

lemma txMixin_move_throws:
  assumes "attributes t = JObj [(''$move'', JObj [(f, d)])]"
  shows "txMixin b t = Inl TypeError"
proof -
  have "mixin t @ ''.'' @ f \<noteq> f" by (rule neq_by_length) simp
  then show ?thesis
    using assms
    by (simp add: txMixin_def Let_def bindE_def js_keys_def js_get_def first_key_def get_prop_def)
qed

text \<open>
  C4 at a mixin transaction that moves \<open>v\<close> to the front of \<open>items\<close>: \<open>txMixin\<close> reads
  the descriptor of the move under the key it has just prefixed with the mixin
  (\<^verbatim>\<open>keyval[arr]\<close> with \<^verbatim>\<open>arr = mixin + '.' + key\<close>), finds nothing there, and throws on
  \<^verbatim>\<open>desc.$value\<close>: no operation is emitted. The lemma before it shows the same for every
  \<^verbatim>\<open>$move\<close> of one field.
\<close>

theorem txMixin_move_example:
  "txMixin emptyBulk ((tf_ex ''x'')\<lparr>attributes := move_ex\<rparr>) = Inl TypeError"
  by (rule txMixin_move_throws) (simp add: tf_ex_def move_ex_def)

text \<open>The update form does what the claim says: two operations, the pull and then the
  push at the position, both with the digest set to \<^verbatim>\<open>null\<close>; and a pull followed by the
  push leaves the value in the array exactly once.\<close>

lemma txUpdateDoc_move:
  assumes "operations t = JObj [(''$move'', JObj [(f, JObj desc)])]"
  shows "txUpdateDoc h b t = Inr (b\<lparr>bulkOperations := bulkOperations b @
           [UpdateOne [(''_id'', JStr (objectId t))]
              [(''$set'', JObj [(''%hash%'', JNull)]),
               (''$pull'', JObj [(f, get_prop desc ''$value'')])],
            UpdateOne [(''_id'', JStr (objectId t))]
              [(''$set'', JObj [(''modifiedBy'', modifiedBy t), (''modifiedOn'', modifiedOn t),
                                (''%hash%'', JNull)]),
               (''$push'', JObj [(f, JObj [(''$each'', JArr [get_prop desc ''$value'']),
                                            (''$position'', get_prop desc ''$position'')])])]]\<rparr>)"
  using assms
  by (simp add: txUpdateDoc_def Let_def bindE_def js_keys_def js_get_def first_key_def get_prop_def)

lemma pull_removes: "v \<notin> set (pull v xs)"
  by (simp add: pull_def)

lemma move_keeps_one: "count_list (push_at v p (pull v xs)) v = 1"
proof -
  define ys where "ys = pull v xs"
  have z: "v \<notin> set ys" by (simp add: ys_def pull_removes)
  have "\<And>i. v \<notin> set (take i ys)" "\<And>i. v \<notin> set (drop i ys)"
    using z by (auto dest: in_set_takeD in_set_dropD)
  then have "\<And>i. count_list (take i ys @ [v] @ drop i ys) v = 1"
    by (simp add: count_list_0_iff)
  then show ?thesis
    unfolding push_at_def Let_def ys_def [symmetric] by simp
qed

subsection \<open>Mixin namespacing\<close>

lemma assign_fresh: "k \<notin> set (map fst ps) \<Longrightarrow> assign k v ps = ps @ [(k, v)]"
  by (induction ps) auto

lemma assignAll_distinct:
  "distinct (map fst (t @ es)) \<Longrightarrow> assignAll es t = t @ es"
  unfolding assignAll_def
proof (induction es arbitrary: t)
  case Nil
  then show ?case by simp
next
  case (Cons e es)
  have "fst e \<notin> set (map fst t)" using Cons.prems by auto
  then have "assign (fst e) (snd e) t = t @ [e]" by (simp add: assign_fresh)
  moreover have "distinct (map fst ((t @ [e]) @ es))" using Cons.prems by simp
  ultimately show ?case using Cons.IH [of "t @ [e]"] by simp
qed

lemma flat_loop:
  assumes "list_all (\<lambda>kv. \<not> startsWith (fst kv) ''$'') kvs"
  shows "fold (\<lambda>(k, v) acc.
                  case acc of
                    Inl e \<Rightarrow> Inl e
                  | Inr (attrs, count) \<Rightarrow>
                      if startsWith k ''$''
                      then (case translateMixinAttrs M v of
                              Inl e \<Rightarrow> Inl e
                            | Inr t \<Rightarrow> Inr (assign k (JObj t) attrs, Suc count))
                      else Inr (assign (M @ ''.'' @ k) v attrs, Suc count))
                kvs (Inr (attrs0, c0))
         = Inr (assignAll (map (\<lambda>kv. (M @ ''.'' @ fst kv, snd kv)) kvs) attrs0, c0 + length kvs)"
  using assms
proof (induction kvs arbitrary: attrs0 c0)
  case Nil
  then show ?case by (simp add: assignAll_def)
next
  case (Cons kv kvs)
  obtain k v where kv: "kv = (k, v)" by (cases kv)
  with Cons show ?case by (simp add: assignAll_def)
qed

lemma translateMixinAttrs_flat:
  assumes "list_all (\<lambda>kv. \<not> startsWith (fst kv) ''$'') kvs"
  shows "translateMixinAttrs M (JObj kvs) =
           Inr (if kvs = [] then [(M @ ''.__mixin'', JStr ''true'')]
                else assignAll (map (\<lambda>kv. (M @ ''.'' @ fst kv, snd kv)) kvs) [])"
  by (subst translateMixinAttrs.simps) (simp add: flat_loop [OF assms] assignAll_def)

lemma assignAll_empty: "distinct (map fst es) \<Longrightarrow> assignAll es [] = es"
  using assignAll_distinct [of "[]" es] by simp

lemma translateMixinAttrs_prefixes:
  assumes "list_all (\<lambda>kv. \<not> startsWith (fst kv) ''$'') kvs" "distinct (map fst kvs)" "kvs \<noteq> []"
  shows "translateMixinAttrs M (JObj kvs) = Inr (map (\<lambda>kv. (M @ ''.'' @ fst kv, snd kv)) kvs)"
proof -
  let ?es = "map (\<lambda>kv. (M @ ''.'' @ fst kv, snd kv)) kvs"
  have "map fst ?es = map (\<lambda>k. M @ ''.'' @ k) (map fst kvs)" by simp
  then have "distinct (map fst ?es)"
    using assms(2) by (simp only: distinct_map) (simp add: inj_on_def)
  then have "assignAll ?es [] = ?es" by (rule assignAll_empty)
  then show ?thesis using assms(3) by (simp add: translateMixinAttrs_flat [OF assms(1)])
qed

lemma split_on_none: "c \<notin> set ys \<Longrightarrow> split_on c ys = [ys]"
  by (induction ys) auto

lemma split_on_append:
  "c \<notin> set xs \<Longrightarrow> split_on c (xs @ c # ys) = xs # split_on c ys"
  by (induction xs) auto

lemma isOperator_flat: "\<not> startsWith k ''$'' \<Longrightarrow> \<not> isOperator (JObj ((k, v) # kvs))"
  by simp

lemma txMixin_flat:
  assumes "\<not> isOperator (attributes t)" "translateMixinAttrs (mixin t) (attributes t) = Inr attrs"
  shows "txMixin emptyBulk t = Inr (emptyBulk\<lparr>update :=
           [(objectId t,
             assignAll (assignAll [(''modifiedBy'', modifiedBy t), (''modifiedOn'', modifiedOn t)]
                          attrs) [])]\<rparr>)"
  using assms
  by (simp add: txMixin_def Let_def bindE_def coalesce_def emptyBulk_def)

lemma set_path_mixin:
  assumes "map_of D M = None \<or> (\<exists>sub. map_of D M = Some (JObj sub))"
  shows "\<exists>sub'. set_path [M, k] v D = Inr (assign M (JObj sub') D) \<and> map_of sub' k = Some v"
  using assms by (auto simp: map_of_assign)


lemma dotted_neq:
  "CHR ''.'' \<notin> set s \<Longrightarrow> M @ ''.'' @ k \<noteq> s"
  by auto

lemma apply_mixin_patch:
  assumes nodot: "CHR ''.'' \<notin> set M" "CHR ''.'' \<notin> set k"
    and res: "M \<notin> {''modifiedBy'', ''modifiedOn''}"
    and dm: "map_of D M = None \<or> (\<exists>sub. map_of D M = Some (JObj sub))"
  shows "\<exists>D' sub'. apply_set [(M @ ''.'' @ k, v), (''modifiedBy'', mb), (''modifiedOn'', mo)] D = Inr D'
           \<and> map_of D' M = Some (JObj sub') \<and> map_of sub' k = Some v"
proof -
  have sp: "split_on CHR ''.'' (M @ CHR ''.'' # k) = [M, k]"
    using split_on_append [OF nodot(1), of k] split_on_none [OF nodot(2)] by simp
  from set_path_mixin [OF dm, of k v] obtain sub' where
    s1: "set_path [M, k] v D = Inr (assign M (JObj sub') D)" and s2: "map_of sub' k = Some v"
    by blast
  let ?D' = "assign ''modifiedOn'' mo (assign ''modifiedBy'' mb (assign M (JObj sub') D))"
  have "apply_set [(M @ ''.'' @ k, v), (''modifiedBy'', mb), (''modifiedOn'', mo)] D = Inr ?D'"
    by (simp add: sp s1 del: set_path.simps) simp
  moreover have "map_of ?D' M = Some (JObj sub')"
    using res by (simp add: map_of_assign)
  ultimately show ?thesis using s2 by blast
qed

lemma map_of_delete_key: "M \<noteq> k \<Longrightarrow> map_of (delete_key k d) M = map_of d M"
  by (induction d) (auto simp: delete_key_def)

lemma map_of_stripHashDoc: "M \<noteq> ''%hash%'' \<Longrightarrow> map_of (stripHashDoc d) M = map_of d M"
  by (simp add: stripHashDoc_def map_of_delete_key)

text \<open>
  C7. Let \<open>M\<close> be the mixin of a mixin transaction, a class reference without a dot that
  is none of the provenance and digest field names, and \<open>D\<close> a document in which \<open>M\<close> is
  absent or an embedded document. With the flat attributes \<^verbatim>\<open>{a: 1}\<close> the transaction
  becomes one \<^verbatim>\<open>updateOne\<close> whose \<^verbatim>\<open>$set\<close> has \<^verbatim>\<open>M.a\<close> at 1; applied to \<open>D\<close> and read
  back through \<open>stripHash\<close>, \<^verbatim>\<open>D.M.a\<close> is 1. With the empty patch the \<^verbatim>\<open>$set\<close> has the
  marker \<^verbatim>\<open>M.__mixin\<close>, and \<^verbatim>\<open>D.M\<close> is an embedded document afterwards. In general every
  key of a flat patch (no key an operator, every key once) is prefixed with the mixin.
\<close>

theorem mixin_namespacing_roundtrip:
  assumes m: "mixin t = M"
    and nodot: "CHR ''.'' \<notin> set M"
    and res: "M \<notin> {''modifiedBy'', ''modifiedOn'', ''%hash%''}"
    and dm: "map_of D M = None \<or> (\<exists>sub. map_of D M = Some (JObj sub))"
  shows
    "(attributes t = JObj [(''a'', JNum 1)] \<longrightarrow>
       (\<exists>b u D'. txMixin emptyBulk t = Inr b
          \<and> assembleOps b = [UpdateOne [(''_id'', JStr (objectId t))] [(''$set'', JObj u)]]
          \<and> map_of u (M @ ''.a'') = Some (JNum 1)
          \<and> apply_set u D = Inr D'
          \<and> get_path (JObj (stripHashDoc D')) [M, ''a''] = JNum 1))
     \<and> (attributes t = JObj [] \<longrightarrow>
       (\<exists>b u D' sub. txMixin emptyBulk t = Inr b
          \<and> assembleOps b = [UpdateOne [(''_id'', JStr (objectId t))] [(''$set'', JObj u)]]
          \<and> map_of u (M @ ''.__mixin'') = Some (JStr ''true'')
          \<and> apply_set u D = Inr D'
          \<and> map_of (stripHashDoc D') M = Some (JObj sub)))
     \<and> (\<forall>kvs. list_all (\<lambda>kv. \<not> startsWith (fst kv) ''$'') kvs \<and> distinct (map fst kvs)
            \<and> kvs \<noteq> []
          \<longrightarrow> translateMixinAttrs M (JObj kvs)
                = Inr (map (\<lambda>kv. (M @ ''.'' @ fst kv, snd kv)) kvs))"
proof -
  have patch: "\<exists>b u D' sub'. txMixin emptyBulk t = Inr b
          \<and> assembleOps b = [UpdateOne [(''_id'', JStr (objectId t))] [(''$set'', JObj u)]]
          \<and> map_of u (M @ ''.'' @ k) = Some v
          \<and> apply_set u D = Inr D'
          \<and> map_of D' M = Some (JObj sub') \<and> map_of sub' k = Some v"
    if flat: "\<not> isOperator (attributes t)"
      and tr: "translateMixinAttrs M (attributes t) = Inr [(M @ ''.'' @ k, v)]"
      and k: "CHR ''.'' \<notin> set k"
    for k v
  proof -
    let ?u = "[(M @ ''.'' @ k, v), (''modifiedBy'', modifiedBy t), (''modifiedOn'', modifiedOn t)]"
    have ne: "M @ ''.'' @ k \<noteq> ''modifiedBy''" "M @ ''.'' @ k \<noteq> ''modifiedOn''"
      by (rule dotted_neq, simp)+
    have u: "assignAll (assignAll [(''modifiedBy'', modifiedBy t), (''modifiedOn'', modifiedOn t)]
                          [(M @ ''.'' @ k, v)]) [] = ?u"
      using ne by (simp add: assignAll_def)
    from txMixin_flat [OF flat, of "[(M @ ''.'' @ k, v)]"] tr m
    have b: "txMixin emptyBulk t = Inr (emptyBulk\<lparr>update := [(objectId t, ?u)]\<rparr>)"
      by (simp add: u del: append.simps)
    have a: "assembleOps (emptyBulk\<lparr>update := [(objectId t, ?u)]\<rparr>)
               = [UpdateOne [(''_id'', JStr (objectId t))] [(''$set'', JObj ?u)]]"
      by (simp add: assembleOps_eq emptyBulk_def)
    have res': "M \<notin> {''modifiedBy'', ''modifiedOn''}" using res by simp
    from apply_mixin_patch [OF nodot k res' dm, of v "modifiedBy t" "modifiedOn t"]
    obtain D' sub' where
      "apply_set ?u D = Inr D'" "map_of D' M = Some (JObj sub')" "map_of sub' k = Some v"
      by blast
    with a b show ?thesis by (intro exI [of _ "emptyBulk\<lparr>update := [(objectId t, ?u)]\<rparr>"] exI [of _ ?u] exI [of _ D'] exI [of _ sub']) simp
  qed
  have c1: "attributes t = JObj [(''a'', JNum 1)] \<longrightarrow>
       (\<exists>b u D'. txMixin emptyBulk t = Inr b
          \<and> assembleOps b = [UpdateOne [(''_id'', JStr (objectId t))] [(''$set'', JObj u)]]
          \<and> map_of u (M @ ''.a'') = Some (JNum 1)
          \<and> apply_set u D = Inr D'
          \<and> get_path (JObj (stripHashDoc D')) [M, ''a''] = JNum 1)"
  proof
    assume at: "attributes t = JObj [(''a'', JNum 1)]"
    have "translateMixinAttrs M (attributes t) = Inr [(M @ ''.'' @ ''a'', JNum 1)]"
      unfolding at by (subst translateMixinAttrs_prefixes) simp_all
    from patch [OF _ this] at obtain b u D' sub' where
      "txMixin emptyBulk t = Inr b"
      "assembleOps b = [UpdateOne [(''_id'', JStr (objectId t))] [(''$set'', JObj u)]]"
      "map_of u (M @ ''.'' @ ''a'') = Some (JNum 1)" "apply_set u D = Inr D'"
      "map_of D' M = Some (JObj sub')" "map_of sub' ''a'' = Some (JNum 1)"
      by auto
    then show "\<exists>b u D'. txMixin emptyBulk t = Inr b
          \<and> assembleOps b = [UpdateOne [(''_id'', JStr (objectId t))] [(''$set'', JObj u)]]
          \<and> map_of u (M @ ''.a'') = Some (JNum 1)
          \<and> apply_set u D = Inr D'
          \<and> get_path (JObj (stripHashDoc D')) [M, ''a''] = JNum 1"
      using res by (intro exI [of _ b] exI [of _ u] exI [of _ D'])
        (simp add: get_prop_def map_of_stripHashDoc)
  qed
  have c2: "attributes t = JObj [] \<longrightarrow>
       (\<exists>b u D' sub. txMixin emptyBulk t = Inr b
          \<and> assembleOps b = [UpdateOne [(''_id'', JStr (objectId t))] [(''$set'', JObj u)]]
          \<and> map_of u (M @ ''.__mixin'') = Some (JStr ''true'')
          \<and> apply_set u D = Inr D'
          \<and> map_of (stripHashDoc D') M = Some (JObj sub))"
  proof
    assume at: "attributes t = JObj []"
    have "translateMixinAttrs M (attributes t) = Inr [(M @ ''.'' @ ''__mixin'', JStr ''true'')]"
      unfolding at by (subst translateMixinAttrs_flat) simp_all
    from patch [OF _ this] at obtain b u D' sub' where
      "txMixin emptyBulk t = Inr b"
      "assembleOps b = [UpdateOne [(''_id'', JStr (objectId t))] [(''$set'', JObj u)]]"
      "map_of u (M @ ''.'' @ ''__mixin'') = Some (JStr ''true'')" "apply_set u D = Inr D'"
      "map_of D' M = Some (JObj sub')"
      by auto
    then show "\<exists>b u D' sub. txMixin emptyBulk t = Inr b
          \<and> assembleOps b = [UpdateOne [(''_id'', JStr (objectId t))] [(''$set'', JObj u)]]
          \<and> map_of u (M @ ''.__mixin'') = Some (JStr ''true'')
          \<and> apply_set u D = Inr D'
          \<and> map_of (stripHashDoc D') M = Some (JObj sub)"
      using res by (intro exI [of _ b] exI [of _ u] exI [of _ D'] exI [of _ sub'])
        (simp add: map_of_stripHashDoc)
  qed
  from c1 c2 translateMixinAttrs_prefixes show ?thesis by blast
qed


theorem mixin_namespacing_roundtrip_witness:
  "(\<exists>b u D'. txMixin emptyBulk ((tf_ex ''x'')\<lparr>attributes := JObj [(''a'', JNum 1)]\<rparr>) = Inr b
      \<and> assembleOps b = [UpdateOne [(''_id'', JStr ''x'')] [(''$set'', JObj u)]]
      \<and> map_of u ''M.a'' = Some (JNum 1)
      \<and> apply_set u [(''_id'', JStr ''x'')] = Inr D'
      \<and> get_path (JObj (stripHashDoc D')) [''M'', ''a''] = JNum 1)
   \<and> (\<exists>b u D' sub. txMixin emptyBulk (tf_ex ''x'') = Inr b
      \<and> assembleOps b = [UpdateOne [(''_id'', JStr ''x'')] [(''$set'', JObj u)]]
      \<and> map_of u ''M.__mixin'' = Some (JStr ''true'')
      \<and> apply_set u [(''_id'', JStr ''x'')] = Inr D'
      \<and> map_of (stripHashDoc D') ''M'' = Some (JObj sub))"
  using mixin_namespacing_roundtrip
      [where t = "(tf_ex ''x'')\<lparr>attributes := JObj [(''a'', JNum 1)]\<rparr>" and M = "''M''"
         and D = "[(''_id'', JStr ''x'')]"]
    mixin_namespacing_roundtrip
      [where t = "tf_ex ''x''" and M = "''M''" and D = "[(''_id'', JStr ''x'')]"]
  by (simp add: tf_ex_def)

subsection \<open>Like queries\<close>





lemma lexRegex_escaped:
  "lexRegex (CHR 0x5C # c # rest) = map_option (Cons (Lit c)) (lexRegex rest)"
  by simp















subsection \<open>The change-hash iterator\<close>

lemma of_char_hexDigit:
  "d < 16 \<Longrightarrow> (of_char (hexDigit d) :: nat) = (if d < 10 then 48 + d else 87 + d)"
  by (simp add: hexDigit_def)

lemma hexDigit_neq:
  assumes "d < 16" "(of_char c :: nat) < 48 \<or> (57 < (of_char c :: nat) \<and> (of_char c :: nat) < 97)
     \<or> 102 < (of_char c :: nat)"
  shows "hexDigit d \<noteq> c"
proof
  assume "hexDigit d = c"
  then have "(of_char (hexDigit d) :: nat) = of_char c" by simp
  with assms show False by (simp add: of_char_hexDigit split: if_splits)
qed

lemma hexDigit_props:
  assumes "d < 16"
  shows "hexVal (hexDigit d) = Some d" "\<not> isSpace (hexDigit d)"
    "hexDigit d \<noteq> CHR ''-''" "hexDigit d \<noteq> CHR ''+''" "hexDigit d \<noteq> CHR ''x''"
    "hexDigit d \<noteq> CHR ''X''" "hexDigit d \<noteq> CHR ''|''"
proof -
  show "hexVal (hexDigit d) = Some d"
    using assms by (simp add: hexVal_def Let_def of_char_hexDigit)
  show "\<not> isSpace (hexDigit d)"
    unfolding isSpace_def using assms by (simp add: hexDigit_neq)
  show "hexDigit d \<noteq> CHR ''-''" "hexDigit d \<noteq> CHR ''+''" "hexDigit d \<noteq> CHR ''x''"
    "hexDigit d \<noteq> CHR ''X''" "hexDigit d \<noteq> CHR ''|''"
    using assms by (simp_all add: hexDigit_neq)
qed

lemma toHex_digits: "c \<in> set (toHex n) \<Longrightarrow> \<exists>d < 16. c = hexDigit d"
proof (induction n rule: toHex.induct)
  case (1 n)
  show ?case
  proof (cases "n < 16")
    case True
    with "1.prems" show ?thesis by (subst (asm) toHex.simps) auto
  next
    case False
    with "1.prems" have "c \<in> set (toHex (n div 16)) \<or> c = hexDigit (n mod 16)"
      by (subst (asm) toHex.simps) auto
    then show ?thesis
    proof
      assume "c \<in> set (toHex (n div 16))"
      with 1 False show ?thesis by simp
    next
      assume "c = hexDigit (n mod 16)"
      then show ?thesis by (intro exI [of _ "n mod 16"]) simp
    qed
  qed
qed

lemma toHex_nonempty: "toHex n \<noteq> []"
  by (subst toHex.simps) simp

lemma hexValue_snoc: "hexValue (ds @ [c]) = 16 * hexValue ds + (case hexVal c of Some d \<Rightarrow> d | None \<Rightarrow> 0)"
  by (simp add: hexValue_def)

lemma hexValue_toHex: "hexValue (toHex n) = n"
proof (induction n rule: toHex.induct)
  case (1 n)
  show ?case
  proof (cases "n < 16")
    case True
    then show ?thesis
      by (subst toHex.simps) (simp add: hexValue_def hexDigit_props)
  next
    case False
    with 1 have "hexValue (toHex (n div 16)) = n div 16" by simp
    with False show ?thesis
      by (subst toHex.simps) (simp add: hexValue_snoc hexDigit_props)
  qed
qed

lemma parseInt16_toHex: "parseInt16 (toHex n) = Some (int n)"
proof -
  obtain c cs where cs: "toHex n = c # cs" using toHex_nonempty [of n] by (cases "toHex n") auto
  have all: "\<And>x. x \<in> set (toHex n) \<Longrightarrow> hexVal x \<noteq> None \<and> \<not> isSpace x \<and> x \<noteq> CHR ''-''
      \<and> x \<noteq> CHR ''+'' \<and> x \<noteq> CHR ''x'' \<and> x \<noteq> CHR ''X''"
    using toHex_digits hexDigit_props by fastforce
  have c: "\<not> isSpace c" "c \<noteq> CHR ''-''" "c \<noteq> CHR ''+''" using all [of c] cs by auto
  have nopre: "take 2 (toHex n) \<noteq> ''0x''" "take 2 (toHex n) \<noteq> ''0X''"
  proof -
    show "take 2 (toHex n) \<noteq> ''0x''"
    proof
      assume "take 2 (toHex n) = ''0x''"
      then have "CHR ''x'' \<in> set (take 2 (toHex n))" by simp
      then have "CHR ''x'' \<in> set (toHex n)" by (rule in_set_takeD)
      with all show False by blast
    qed
    show "take 2 (toHex n) \<noteq> ''0X''"
    proof
      assume "take 2 (toHex n) = ''0X''"
      then have "CHR ''X'' \<in> set (take 2 (toHex n))" by simp
      then have "CHR ''X'' \<in> set (toHex n)" by (rule in_set_takeD)
      with all show False by blast
    qed
  qed
  have tw: "takeWhile (\<lambda>c. hexVal c \<noteq> None) (toHex n) = toHex n"
    using all by (simp add: takeWhile_eq_all_conv)
  have dw: "dropWhile isSpace (toHex n) = toHex n"
    using c cs by simp
  have hd: "hd (toHex n) \<noteq> CHR ''-''" "hd (toHex n) \<noteq> CHR ''+''"
    using c cs by simp_all
  show ?thesis
    unfolding parseInt16_def dw Let_def
    using hd nopre toHex_nonempty [of n] hexValue_toHex [of n]
    by (simp add: tw del: not_None_eq)
qed

lemma indexOf_append: "c \<notin> set h \<Longrightarrow> indexOf c (h @ c # r) = int (length h)"
  by (induction h) (auto simp: Let_def)

lemma digest_roundtrip:
  assumes "CHR ''|'' \<notin> set h"
  shows "sliceTo (h @ ''|'' @ toHex n) (indexOf CHR ''|'' (h @ ''|'' @ toHex n)) = h"
    "parseInt16 (sliceFrom (h @ ''|'' @ toHex n) (indexOf CHR ''|'' (h @ ''|'' @ toHex n) + 1))
       = Some (int n)"
proof -
  have i: "indexOf CHR ''|'' (h @ ''|'' @ toHex n) = int (length h)"
    using indexOf_append [OF assms, of "toHex n"] by simp
  have n1: "nat (int (length h) + 1) = Suc (length h)" by simp
  show "sliceTo (h @ ''|'' @ toHex n) (indexOf CHR ''|'' (h @ ''|'' @ toHex n)) = h"
    unfolding i by (simp add: sliceTo_def)
  show "parseInt16 (sliceFrom (h @ ''|'' @ toHex n) (indexOf CHR ''|'' (h @ ''|'' @ toHex n) + 1))
       = Some (int n)"
    unfolding i sliceFrom_def n1 by (simp add: parseInt16_toHex)
qed


lemma fetch_keeps:
  "bulkUpdate (snd (fetch st)) = bulkUpdate st" "written (snd (fetch st)) = written st"
  by (auto simp: fetch_def split: option.splits list.splits)

lemma openCursor_keeps:
  "bulkUpdate (openCursor p st) = bulkUpdate st" "written (openCursor p st) = written st"
  by (auto simp: openCursor_def Let_def split: option.splits)

lemma advance_keeps:
  "bulkUpdate (snd (advance st)) = bulkUpdate st" "written (snd (advance st)) = written st"
  by (auto simp: advance_def Let_def fetch_keeps)

lemma advance_ready:
  "iterator st = Some (d # rest) \<Longrightarrow> advance st = (Some d, st\<lparr>iterator := Some rest\<rparr>)"
  by (simp add: advance_def fetch_def Let_def)

lemma openCursor_ready: "iterator st = Some c \<Longrightarrow> openCursor p st = st"
  by (simp add: openCursor_def)

lemma length_assign: "length (assign k v ps) \<le> Suc (length ps)"
  by (induction ps) auto

lemma next_fresh:
  assumes "iterator st = Some (d # rest)" "get_prop d ''%hash%'' \<in> {JNull, JUndefined, JStr []}"
  shows "iter_next p st =
     Inr (Some \<lparr>r_id = get_prop (stripHashDoc d) ''_id'',
                 r_hash = calculateHash p (stripHashDoc d),
                 r_size = Some (int (estimateDocSize p (stripHashDoc d)))\<rparr>,
          flush False
            (st\<lparr>iterator := Some rest,
                bulkUpdate := assign (get_prop (stripHashDoc d) ''_id'')
                  (calculateHash p (stripHashDoc d) @ ''|''
                     @ toHex (estimateDocSize p (stripHashDoc d)))
                  (bulkUpdate st)\<rparr>))"
  using assms
  by (auto simp: iter_next_def openCursor_ready advance_ready yield_def Let_def stripHashDoc_def)

lemma flush_threshold:
  "flush False st =
     (if length (bulkUpdate st) > 1000
      then st\<lparr>written := written st @ [bulkUpdate st],
              coll := fold writeDigest (bulkUpdate st) (coll st), bulkUpdate := []\<rparr>
      else st)"
  by (auto simp: flush_def Let_def)

lemma close_flushes:
  "bulkUpdate (iter_close st) = []"
  "written (iter_close st) = written st @ (if bulkUpdate st = [] then [] else [bulkUpdate st])"
  by (simp_all add: iter_close_def flush_def Let_def)

lemma flush_bound:
  assumes "length (bulkUpdate st) \<le> 1001"
  shows "length (bulkUpdate (flush False st)) \<le> 1000
         \<and> (written (flush False st) = written st
             \<or> (\<exists>batch. written (flush False st) = written st @ [batch] \<and> length batch = 1001))"
  using assms by (auto simp: flush_threshold)

lemma yield_bound:
  assumes "length (bulkUpdate st) \<le> 1000" "yield p d st = Inr (r, st')"
  shows "length (bulkUpdate st') \<le> 1000
         \<and> (written st' = written st
             \<or> (\<exists>batch. written st' = written st @ [batch] \<and> length batch = 1001))"
proof (cases "get_prop d ''%hash%'' = JNull \<or> get_prop d ''%hash%'' = JUndefined
                \<or> get_prop d ''%hash%'' = JStr []")
  case False
  with assms show ?thesis by (auto simp: yield_def Let_def split: json.splits)
next
  case True
  let ?d = "if has_key ''%hash%'' d then delete_key ''%hash%'' d else d"
  let ?st = "st\<lparr>bulkUpdate :=
               assign (get_prop ?d ''_id'')
                 (calculateHash p ?d @ ''|'' @ toHex (estimateDocSize p ?d))
                 (bulkUpdate st)\<rparr>"
  have st': "st' = flush False ?st"
    using True assms(2) by (simp add: yield_def Let_def)
  have "length (assign (get_prop ?d ''_id'')
                 (calculateHash p ?d @ ''|'' @ toHex (estimateDocSize p ?d))
                 (bulkUpdate st)) \<le> Suc (length (bulkUpdate st))"
    by (rule length_assign)
  with assms(1) have "length (bulkUpdate ?st) \<le> 1001" by simp
  from flush_bound [OF this] show ?thesis unfolding st' by simp
qed

lemma next_bound:
  assumes "length (bulkUpdate st) \<le> 1000" "iter_next p st = Inr (r, st')"
  shows "length (bulkUpdate st') \<le> 1000
         \<and> (written st' = written st
             \<or> (\<exists>batch. written st' = written st @ [batch] \<and> length batch = 1001))"
proof (cases "fst (advance (openCursor p st))")
  case None
  with assms show ?thesis
    by (auto simp: iter_next_def Let_def advance_keeps openCursor_keeps)
next
  case (Some d)
  with assms(2) have y: "yield p d (snd (advance (openCursor p st))) = Inr (r, st')"
    by (simp add: iter_next_def Let_def)
  have "length (bulkUpdate (snd (advance (openCursor p st)))) \<le> 1000"
    using assms(1) by (simp add: advance_keeps openCursor_keeps)
  from yield_bound [OF this y] show ?thesis
    by (simp add: advance_keeps openCursor_keeps)
qed


lemma next_taken_hashed:
  assumes "advance (openCursor p st) = (Some d, st_taken)" "get_prop d ''%hash%'' = JStr s" "s \<noteq> []"
  shows "iter_next p st =
     Inr (Some \<lparr>r_id = get_prop (stripHashDoc d) ''_id'',
                 r_hash = sliceTo s (indexOf CHR ''|'' s),
                 r_size = parseInt16 (sliceFrom s (indexOf CHR ''|'' s + 1))\<rparr>, st_taken)"
  using assms by (simp add: iter_next_def yield_def Let_def stripHashDoc_def)

lemma next_taken_fresh:
  assumes "advance (openCursor p st) = (Some d, st_taken)"
    "get_prop d ''%hash%'' \<in> {JNull, JUndefined, JStr []}"
  shows "iter_next p st =
     Inr (Some \<lparr>r_id = get_prop (stripHashDoc d) ''_id'',
                 r_hash = calculateHash p (stripHashDoc d),
                 r_size = Some (int (estimateDocSize p (stripHashDoc d)))\<rparr>,
          flush False
            (st_taken\<lparr>bulkUpdate := assign (get_prop (stripHashDoc d) ''_id'')
                  (calculateHash p (stripHashDoc d) @ ''|''
                     @ toHex (estimateDocSize p (stripHashDoc d)))
                  (bulkUpdate st_taken)\<rparr>))"
  using assms by (auto simp: iter_next_def yield_def Let_def stripHashDoc_def)

lemma next_taken_none:
  "advance (openCursor p st) = (None, st_taken) \<Longrightarrow> iter_next p st = Inr (None, st_taken)"
  by (simp add: iter_next_def Let_def)

lemma take_open:
  assumes "iterator st = None" "mode st = Hashed"
  shows "advance (openCursor p st) =
     (let c = (if recheck p then invalidateAll (coll st) else coll st)
      in case map projectDigest (filter isHashed c) of
           d # ds \<Rightarrow> (Some d, st\<lparr>coll := c, iterator := Some ds\<rparr>)
         | [] \<Rightarrow>
            (case filter (\<lambda>d. \<not> isHashed d) c of
               d # ds \<Rightarrow> (Some d, st\<lparr>coll := c, mode := NonHashed, iterator := Some ds\<rparr>)
             | [] \<Rightarrow> (None, st\<lparr>coll := c, mode := NonHashed, iterator := Some []\<rparr>)))"
  using assms
  by (auto simp: openCursor_def advance_def fetch_def Let_def split: list.splits)

lemma take_ready:
  "iterator st = Some (d # rest) \<Longrightarrow>
     advance (openCursor p st) = (Some d, st\<lparr>iterator := Some rest\<rparr>)"
  by (simp add: openCursor_ready advance_ready)

lemma take_switch:
  assumes "iterator st = Some []" "mode st = Hashed"
  shows "advance (openCursor p st) =
     (case filter (\<lambda>d. \<not> isHashed d) (coll st) of
        d # ds \<Rightarrow> (Some d, st\<lparr>mode := NonHashed, iterator := Some ds\<rparr>)
      | [] \<Rightarrow> (None, st\<lparr>mode := NonHashed, iterator := Some []\<rparr>))"
  using assms
  by (auto simp: openCursor_def advance_def fetch_def Let_def split: list.splits)

lemma take_end:
  assumes "iterator st = Some []" "mode st = NonHashed"
  shows "advance (openCursor p st) = (None, st)"
  using assms
  by (auto simp: openCursor_def advance_def fetch_def Let_def split: list.splits)

lemma map_of_filter_keys: "P k \<Longrightarrow> map_of (filter (\<lambda>kv. P (fst kv)) d) k = map_of d k"
  by (induction d) auto

lemma projectDigest_keeps:
  "get_prop (projectDigest d) ''%hash%'' = get_prop d ''%hash%''"
  "get_prop (projectDigest d) ''_id'' = get_prop d ''_id''"
  using map_of_filter_keys [of "\<lambda>k. k = ''%hash%'' \<or> k = ''_id''" "''%hash%''" d]
    map_of_filter_keys [of "\<lambda>k. k = ''%hash%'' \<or> k = ''_id''" "''_id''" d]
  by (simp_all add: get_prop_def projectDigest_def)

lemma recheck_invalidates: "filter isHashed (invalidateAll c) = []"
  by (induction c) (auto simp: invalidateAll_def isHashed_def get_prop_def map_of_assign)

text \<open>
  C9, as the code has it. Whatever the state of the iterator (no cursor yet, a cursor with
  documents left, an exhausted first cursor), \<open>next\<close> works on the document that the
  cursors give it. When that document has a digest that is a non-empty string, \<open>next\<close>
  yields the part before the first \<^verbatim>\<open>|\<close> as hash and the hexadecimal number after it as
  size, and leaves the buffer and the collection alone: the hash and size functions are
  not consulted. What was stored as \<^verbatim>\<open>hash|sizeHex\<close> is read back as that hash and that
  size. When the digest is missing, \<^verbatim>\<open>null\<close> or empty, \<open>next\<close> yields the computed hash
  and size and puts \<^verbatim>\<open>hash|sizeHex\<close> in the buffer under the document's id. The document
  is the next one of the open cursor; the first call opens the cursor over the hashed
  documents (none after a forced recheck), projected to id and digest, and the call that
  finds this cursor exhausted goes over, once, to the documents without digest; when
  these are exhausted too, \<open>next\<close> yields nothing. The buffer is written out as soon as
  it holds more than 1000 entries, so a batch written by \<open>next\<close> has 1001 entries and the
  buffer never keeps more than 1000; \<open>close\<close> writes out whatever the buffer holds and
  empties it.
\<close>

theorem change_hash_iterator:
  "(advance (openCursor p st) = (Some d, st_taken) \<and> get_prop d ''%hash%'' = JStr s \<and> s \<noteq> [] \<longrightarrow>
      iter_next p st =
        Inr (Some \<lparr>r_id = get_prop (stripHashDoc d) ''_id'',
                    r_hash = sliceTo s (indexOf CHR ''|'' s),
                    r_size = parseInt16 (sliceFrom s (indexOf CHR ''|'' s + 1))\<rparr>, st_taken))
   \<and> (CHR ''|'' \<notin> set h \<longrightarrow>
        sliceTo (h @ ''|'' @ toHex n) (indexOf CHR ''|'' (h @ ''|'' @ toHex n)) = h
        \<and> parseInt16 (sliceFrom (h @ ''|'' @ toHex n)
                         (indexOf CHR ''|'' (h @ ''|'' @ toHex n) + 1)) = Some (int n))
   \<and> (advance (openCursor p st) = (Some d, st_taken)
        \<and> get_prop d ''%hash%'' \<in> {JNull, JUndefined, JStr []} \<longrightarrow>
        iter_next p st =
          Inr (Some \<lparr>r_id = get_prop (stripHashDoc d) ''_id'',
                      r_hash = calculateHash p (stripHashDoc d),
                      r_size = Some (int (estimateDocSize p (stripHashDoc d)))\<rparr>,
               flush False
                 (st_taken\<lparr>bulkUpdate := assign (get_prop (stripHashDoc d) ''_id'')
                       (calculateHash p (stripHashDoc d) @ ''|''
                          @ toHex (estimateDocSize p (stripHashDoc d)))
                       (bulkUpdate st_taken)\<rparr>)))
   \<and> (advance (openCursor p st) = (None, st_taken) \<longrightarrow> iter_next p st = Inr (None, st_taken))
   \<and> bulkUpdate (snd (advance (openCursor p st))) = bulkUpdate st
   \<and> written (snd (advance (openCursor p st))) = written st
   \<and> (iterator st = None \<and> mode st = Hashed \<longrightarrow>
        advance (openCursor p st) =
          (let c = (if recheck p then invalidateAll (coll st) else coll st)
           in case map projectDigest (filter isHashed c) of
                x # xs \<Rightarrow> (Some x, st\<lparr>coll := c, iterator := Some xs\<rparr>)
              | [] \<Rightarrow>
                 (case filter (\<lambda>x. \<not> isHashed x) c of
                    x # xs \<Rightarrow> (Some x, st\<lparr>coll := c, mode := NonHashed, iterator := Some xs\<rparr>)
                  | [] \<Rightarrow> (None, st\<lparr>coll := c, mode := NonHashed, iterator := Some []\<rparr>))))
   \<and> (iterator st = Some (x # rest) \<longrightarrow>
        advance (openCursor p st) = (Some x, st\<lparr>iterator := Some rest\<rparr>))
   \<and> (iterator st = Some [] \<and> mode st = Hashed \<longrightarrow>
        advance (openCursor p st) =
          (case filter (\<lambda>x. \<not> isHashed x) (coll st) of
             x # xs \<Rightarrow> (Some x, st\<lparr>mode := NonHashed, iterator := Some xs\<rparr>)
           | [] \<Rightarrow> (None, st\<lparr>mode := NonHashed, iterator := Some []\<rparr>)))
   \<and> (iterator st = Some [] \<and> mode st = NonHashed \<longrightarrow> advance (openCursor p st) = (None, st))
   \<and> get_prop (projectDigest x) ''%hash%'' = get_prop x ''%hash%''
   \<and> get_prop (projectDigest x) ''_id'' = get_prop x ''_id''
   \<and> filter isHashed (invalidateAll c) = []
   \<and> flush False st =
        (if length (bulkUpdate st) > 1000
         then st\<lparr>written := written st @ [bulkUpdate st],
                 coll := fold writeDigest (bulkUpdate st) (coll st), bulkUpdate := []\<rparr>
         else st)
   \<and> (length (bulkUpdate st) \<le> 1000 \<and> iter_next p st = Inr (r, st') \<longrightarrow>
        length (bulkUpdate st') \<le> 1000
        \<and> (written st' = written st
            \<or> (\<exists>batch. written st' = written st @ [batch] \<and> length batch = 1001)))
   \<and> bulkUpdate (iter_close st) = []
   \<and> written (iter_close st) = written st @ (if bulkUpdate st = [] then [] else [bulkUpdate st])"
proof (intro conjI impI; (elim conjE)?)
  show "bulkUpdate (snd (advance (openCursor p st))) = bulkUpdate st"
    by (simp add: advance_keeps openCursor_keeps)
  show "written (snd (advance (openCursor p st))) = written st"
    by (simp add: advance_keeps openCursor_keeps)
qed (rule next_taken_hashed digest_roundtrip next_taken_fresh next_taken_none take_open
      take_ready take_switch take_end projectDigest_keeps recheck_invalidates flush_threshold
      close_flushes | erule (1) next_bound [THEN conjunct1] next_bound [THEN conjunct2]
    | assumption)+

theorem change_hash_iterator_witness:
  "iter_next p_ex st_ex =
     Inr (Some \<lparr>r_id = JStr ''a'', r_hash = ''abc'', r_size = Some 26\<rparr>,
          st_ex\<lparr>iterator := Some []\<rparr>)
   \<and> iter_next p_ex (st_ex\<lparr>iterator := Some []\<rparr>) =
     Inr (Some \<lparr>r_id = JStr ''b'', r_hash = ''h'', r_size = Some 0\<rparr>,
          st_ex\<lparr>mode := NonHashed, iterator := Some [], bulkUpdate := [(JStr ''b'', ''h|0'')]\<rparr>)
   \<and> iter_next p_ex
        (st_ex\<lparr>mode := NonHashed, iterator := Some [], bulkUpdate := [(JStr ''b'', ''h|0'')]\<rparr>) =
     Inr (None,
          st_ex\<lparr>mode := NonHashed, iterator := Some [], bulkUpdate := [(JStr ''b'', ''h|0'')]\<rparr>)
   \<and> written (iter_close
        (st_ex\<lparr>mode := NonHashed, iterator := Some [], bulkUpdate := [(JStr ''b'', ''h|0'')]\<rparr>))
       = [[(JStr ''b'', ''h|0'')]]"
proof -
  let ?a = "[(''_id'', JStr ''a''), (''%hash%'', JStr ''abc|1a'')]"
  let ?b = "[(''_id'', JStr ''b''), (''n'', JNum 2), (''%hash%'', JNull)]"
  let ?s1 = "st_ex\<lparr>iterator := Some []\<rparr>"
  let ?s2 = "st_ex\<lparr>mode := NonHashed, iterator := Some []\<rparr>"
  let ?s3 = "st_ex\<lparr>mode := NonHashed, iterator := Some [],
                    bulkUpdate := [(JStr ''b'', ''h|0'')]\<rparr>"
  have x: "''abc|1a'' = ''abc'' @ ''|'' @ toHex 26" by code_simp
  have z: "toHex 0 = ''0''" by code_simp
  have t1: "advance (openCursor p_ex st_ex) = (Some ?a, ?s1)"
    using change_hash_iterator [where st = st_ex and p = p_ex]
    by (simp add: st_ex_def p_ex_def isHashed_def projectDigest_def get_prop_def)
  have n1: "iter_next p_ex st_ex =
     Inr (Some \<lparr>r_id = JStr ''a'', r_hash = ''abc'', r_size = Some 26\<rparr>, ?s1)"
    using change_hash_iterator [where st = st_ex and p = p_ex and d = ?a and st_taken = ?s1
        and s = "''abc|1a''" and h = "''abc''" and n = 26] t1
    unfolding x [symmetric]
    by (simp add: stripHashDoc_def has_key_def delete_key_def get_prop_def)
  have t2: "advance (openCursor p_ex ?s1) = (Some ?b, ?s2)"
    using change_hash_iterator [where st = ?s1 and p = p_ex]
    by (simp add: st_ex_def isHashed_def get_prop_def)
  have n2: "iter_next p_ex ?s1 =
     Inr (Some \<lparr>r_id = JStr ''b'', r_hash = ''h'', r_size = Some 0\<rparr>, ?s3)"
    using change_hash_iterator [where st = ?s1 and p = p_ex and d = ?b and st_taken = ?s2] t2
    by (simp add: st_ex_def p_ex_def stripHashDoc_def has_key_def delete_key_def get_prop_def
        flush_def z)
  have n3: "iter_next p_ex ?s3 = Inr (None, ?s3)"
    using change_hash_iterator [where st = ?s3 and p = p_ex and st_taken = ?s3]
    by (simp add: st_ex_def)
  have c: "written (iter_close ?s3) = [[(JStr ''b'', ''h|0'')]]"
    using change_hash_iterator [where st = ?s3] by (simp add: st_ex_def)
  from n1 n2 n3 c show ?thesis by blast
qed

lemma assign_fresh': "k \<notin> fst ` set ps \<Longrightarrow> assign k v ps = ps @ [(k, v)]"
  by (induction ps) auto

text \<open>
  The claim as the spec states it (batches of at most 1000) fails when the buffer holds
  1000 entries and the next document has no digest: the batch written has 1001 entries.
\<close>

theorem flush_batch_counterexample:
  "\<exists>r st'. iter_next p_ex st_full = Inr (r, st') \<and> map length (written st') = [1001]"
proof -
  let ?bu = "map (\<lambda>i. (JNum (int i), ''h|0'')) [0..<1000]"
  have z: "toHex 0 = ''0''" by code_simp
  have fresh: "JNum 1000 \<notin> fst ` set ?bu" by auto
  have a: "assign (JNum 1000) ''h|0'' ?bu = ?bu @ [(JNum 1000, ''h|0'')]"
    by (rule assign_fresh' [OF fresh])
  have n1: "iter_next p_ex st_full =
          Inr (Some \<lparr>r_id = JNum 1000, r_hash = ''h'', r_size = Some 0\<rparr>,
               flush False (st_full\<lparr>iterator := Some [],
                   bulkUpdate := ?bu @ [(JNum 1000, ''h|0'')]\<rparr>))"
    using next_fresh [where st = st_full and d = "[(''_id'', JNum 1000)]" and rest = "[]"
        and p = p_ex] a
    by (simp add: st_full_def p_ex_def stripHashDoc_def has_key_def get_prop_def z
        del: assign.simps upt.simps)
  have n2: "map length (written (flush False (st_full\<lparr>iterator := Some [],
                   bulkUpdate := ?bu @ [(JNum 1000, ''h|0'')]\<rparr>))) = [1001]"
    by (simp add: flush_threshold st_full_def del: upt.simps)
  show ?thesis by (rule exI, rule exI, rule conjI, rule n1, rule n2)
qed

subsection \<open>The execution path of findAll\<close>

text \<open>
  C2, as the code has it. \<open>findAll\<close> goes to the aggregation pipeline exactly when it is
  given options and the options have a lookup, or a sort key that is an enum attribute
  of the class, or a sort value that is an object (custom rules). Whether the query or
  the sort names a \<^verbatim>\<open>$lookup.\<close> field does not choose the path; inside the pipeline path
  it is the \<open>slowPipeline\<close> flag, which puts the joins before sort and limit.
\<close>

theorem findAll_pipeline_path:
  assumes "findAll h clazz query options = Inr call"
  shows "((\<exists>slow. call = Aggregate slow) \<longleftrightarrow>
            (\<exists>opt. options = Some opt \<and>
               ((o_lookup opt \<noteq> JNull \<and> o_lookup opt \<noteq> JUndefined)
                \<or> isEnumSort h clazz options \<or> isRulesSort options)))
         \<and> (\<forall>slow. call = Aggregate slow \<longrightarrow>
               slow = (isLookupQuery query
                       \<or> isLookupSort (case options of Some opt \<Rightarrow> o_sort opt | None \<Rightarrow> None)))"
  using assms
  by (cases options)
    (auto simp: findAll_def bindE_def Let_def split: sum.splits if_splits)

lemma translateQuery_ex:
  "translateQuery h_ex ''C'' [(''$lookup.assignee.name'', JStr ''x'')] None
     = Inr ([(''_class'', JStr ''C'')], [(''assignee_lookup.name'', JStr ''x'')])"
  by code_simp

theorem findAll_pipeline_path_witness:
  "findAll h_ex ''C'' []
     (Some (opts_ex\<lparr>o_lookup := JObj [(''assignee'', JStr ''contact:class:Person'')]\<rparr>))
     = Inr (Aggregate False)
   \<and> (\<exists>opt. Some (opts_ex\<lparr>o_lookup := JObj [(''assignee'', JStr ''contact:class:Person'')]\<rparr>)
               = Some opt
        \<and> ((o_lookup opt \<noteq> JNull \<and> o_lookup opt \<noteq> JUndefined)
            \<or> isEnumSort h_ex ''C''
                 (Some (opts_ex\<lparr>o_lookup := JObj [(''assignee'', JStr ''contact:class:Person'')]\<rparr>))
            \<or> isRulesSort
                 (Some (opts_ex\<lparr>o_lookup := JObj [(''assignee'', JStr ''contact:class:Person'')]\<rparr>))))"
proof -
  let ?o = "Some (opts_ex\<lparr>o_lookup := JObj [(''assignee'', JStr ''contact:class:Person'')]\<rparr>)"
  have e: "findAll h_ex ''C'' [] ?o = Inr (Aggregate False)"
    by code_simp
  from findAll_pipeline_path [OF e] e show ?thesis by blast
qed

text \<open>
  The claim as the spec states it fails both ways: a query on a \<^verbatim>\<open>$lookup.\<close> field
  without options takes the fast path, and options with a lookup take the pipeline
  although the query and the sort name no joined field and there is no sort at all.
\<close>

theorem findAll_path_counterexample:
  "findAll h_ex ''C'' [(''$lookup.assignee.name'', JStr ''x'')] None
     = Inr (FindCursorCall [(''_class'', JStr ''C''), (''assignee_lookup.name'', JStr ''x'')])
   \<and> specSlowPath h_ex ''C'' [(''$lookup.assignee.name'', JStr ''x'')] None
   \<and> findAll h_ex ''C'' []
        (Some (opts_ex\<lparr>o_lookup := JObj [(''assignee'', JStr ''contact:class:Person'')]\<rparr>))
      = Inr (Aggregate False)
   \<and> \<not> specSlowPath h_ex ''C'' []
        (Some (opts_ex\<lparr>o_lookup := JObj [(''assignee'', JStr ''contact:class:Person'')]\<rparr>))"
  by code_simp

subsection \<open>The class scope of a query\<close>

lemma get_prop_assign: "get_prop (assign k v d) k' = (if k' = k then v else get_prop d k')"
  by (simp add: get_prop_def map_of_assign)

lemma map_of_delete_same: "map_of (delete_key k d) k = None"
  by (induction d) (auto simp: delete_key_def)

lemma get_prop_delete:
  "get_prop (delete_key k d) k' = (if k' = k then JUndefined else get_prop d k')"
  by (simp add: get_prop_def map_of_delete_same map_of_delete_key)

lemma has_key_delete: "\<not> has_key k (delete_key k d)"
  by (auto simp: has_key_def delete_key_def)

lemma condMatches_str: "condMatches (JStr s) (JStr c) \<longleftrightarrow> c = s"
  by (auto simp: condMatches_def)

lemma condMatches_in: "condMatches (JObj [(''$in'', JArr xs)]) v \<longleftrightarrow> v \<in> set xs"
  by (simp add: condMatches_def opMatches_def)

lemma condMatches_one_or_in:
  assumes "\<forall>x \<in> set desc. \<exists>s. x = JStr s"
  shows "condMatches (case desc of [x] \<Rightarrow> x | _ \<Rightarrow> JObj [(''$in'', JArr desc)]) (JStr c)
           \<longleftrightarrow> JStr c \<in> set desc"
proof (cases desc)
  case Nil
  then show ?thesis by (simp add: condMatches_in)
next
  case (Cons x xs)
  show ?thesis
  proof (cases xs)
    case Nil
    with Cons assms obtain s where "x = JStr s" by auto
    with Cons Nil show ?thesis by (auto simp: condMatches_str)
  next
    case (Cons y ys)
    with \<open>desc = x # xs\<close> show ?thesis by (simp add: condMatches_in)
  qed
qed

lemma plain_one_or_in:
  assumes "\<forall>x \<in> set desc. \<exists>s. x = JStr s"
  shows "plainClass (case desc of [x] \<Rightarrow> x | _ \<Rightarrow> JObj [(''$in'', JArr desc)])"
  using assms by (auto simp: plainClass_def split: list.splits)

lemma collapse_plain:
  assumes "plainClass (get_prop tb ''_class'')"
  shows "condMatches (get_prop (collapseSingle tb) ''_class'') (JStr c)
           = condMatches (get_prop tb ''_class'') (JStr c)"
    and "plainClass (get_prop (collapseSingle tb) ''_class'')"
proof -
  from assms consider (str) s where "get_prop tb ''_class'' = JStr s"
    | (ins) xs where "get_prop tb ''_class'' = JObj [(''$in'', JArr xs)]"
        "\<forall>x \<in> set xs. \<exists>s. x = JStr s"
    by (auto simp: plainClass_def)
  then have "condMatches (get_prop (collapseSingle tb) ''_class'') (JStr c)
           = condMatches (get_prop tb ''_class'') (JStr c)
      \<and> plainClass (get_prop (collapseSingle tb) ''_class'')"
  proof cases
    case str
    then show ?thesis by (simp add: collapseSingle_def plainClass_def)
  next
    case ins
    show ?thesis
    proof (cases xs)
      case Nil
      with ins show ?thesis by (simp add: collapseSingle_def get_prop_def plainClass_def)
    next
      case (Cons x ys)
      show ?thesis
      proof (cases ys)
        case Nil
        from ins Cons obtain s where x: "x = JStr s" by auto
        have "collapseSingle tb = assign ''_class'' (JStr s) tb"
          using ins(1) Cons Nil x by (simp add: collapseSingle_def get_prop_def)
        then show ?thesis
          using ins(1) Cons Nil x
          by (auto simp: get_prop_assign condMatches_in condMatches_str plainClass_def)
      next
        case (Cons y zs)
        with ins \<open>xs = x # ys\<close> show ?thesis
          by (simp add: collapseSingle_def get_prop_def plainClass_def)
      qed
    qed
  qed
  then show "condMatches (get_prop (collapseSingle tb) ''_class'') (JStr c)
           = condMatches (get_prop tb ''_class'') (JStr c)"
    and "plainClass (get_prop (collapseSingle tb) ''_class'')" by simp_all
qed

lemma collapse_other: "k \<noteq> ''_class'' \<Longrightarrow> get_prop (collapseSingle tb) k = get_prop tb k"
  by (auto simp: collapseSingle_def get_prop_assign split: json.splits list.splits)

lemma narrowClasses_sem:
  assumes "\<forall>c \<in> set classes. \<not> isMixin h c"
  shows "\<exists>desc. narrowClasses h classes v
            = (case desc of [x] \<Rightarrow> x | _ \<Rightarrow> JObj [(''$in'', JArr desc)])
          \<and> (\<forall>x \<in> set desc. \<exists>s. x = JStr s)
          \<and> (\<forall>c. JStr c \<in> set desc \<longleftrightarrow>
                 c \<in> set classes
                 \<and> (\<forall>ins. get_prop (spread v) ''$in'' = JArr ins \<longrightarrow> JStr c \<in> set ins)
                 \<and> (\<forall>ns. get_prop (spread v) ''$nin'' = JArr ns \<longrightarrow> JStr c \<notin> set ns))"
proof -
  define d1 where "d1 = (case get_prop (spread v) ''$in'' of
                           JArr ins \<Rightarrow> filter (\<lambda>x. x \<in> set (map JStr classes)) ins
                         | _ \<Rightarrow> map JStr classes)"
  define d2 where "d2 = (case get_prop (spread v) ''$nin'' of
                           JArr nins \<Rightarrow> filter (\<lambda>x. x \<notin> set nins) d1
                         | _ \<Rightarrow> d1)"
  define desc where "desc = filter (\<lambda>it. case it of JStr s \<Rightarrow> \<not> isMixin h s | _ \<Rightarrow> True) d2"
  have n: "narrowClasses h classes v = (case desc of [x] \<Rightarrow> x | _ \<Rightarrow> JObj [(''$in'', JArr desc)])"
    unfolding narrowClasses_def Let_def d1_def d2_def desc_def by (rule refl)
  have s1: "set d1 \<subseteq> set (map JStr classes)"
    by (auto simp: d1_def split: json.splits)
  have m1: "\<And>c. JStr c \<in> set d1 \<longleftrightarrow> c \<in> set classes
               \<and> (\<forall>ins. get_prop (spread v) ''$in'' = JArr ins \<longrightarrow> JStr c \<in> set ins)"
    by (auto simp: d1_def split: json.splits)
  have s2: "set d2 \<subseteq> set d1" by (auto simp: d2_def split: json.splits)
  have m2: "\<And>c. JStr c \<in> set d2 \<longleftrightarrow> JStr c \<in> set d1
               \<and> (\<forall>ns. get_prop (spread v) ''$nin'' = JArr ns \<longrightarrow> JStr c \<notin> set ns)"
    by (auto simp: d2_def split: json.splits)
  have d: "desc = d2"
    unfolding desc_def using s1 s2 assms by (intro filter_True) (auto split: json.splits)
  have "\<forall>x \<in> set desc. \<exists>s. x = JStr s" using d s1 s2 by auto
  with n m1 m2 d show ?thesis by (intro exI [of _ desc]) simp
qed

lemma narrowClasses_matches:
  assumes "\<forall>c \<in> set classes. \<not> isMixin h c"
  shows "plainClass (narrowClasses h classes v)"
    and "condMatches (narrowClasses h classes v) (JStr c) \<longleftrightarrow>
           c \<in> set classes
           \<and> (\<forall>ins. get_prop (spread v) ''$in'' = JArr ins \<longrightarrow> JStr c \<in> set ins)
           \<and> (\<forall>ns. get_prop (spread v) ''$nin'' = JArr ns \<longrightarrow> JStr c \<notin> set ns)"
proof -
  from narrowClasses_sem [OF assms, of v] obtain desc where
    n: "narrowClasses h classes v = (case desc of [x] \<Rightarrow> x | _ \<Rightarrow> JObj [(''$in'', JArr desc)])"
    and a: "\<forall>x \<in> set desc. \<exists>s. x = JStr s"
    and m: "\<forall>c. JStr c \<in> set desc \<longleftrightarrow>
                 c \<in> set classes
                 \<and> (\<forall>ins. get_prop (spread v) ''$in'' = JArr ins \<longrightarrow> JStr c \<in> set ins)
                 \<and> (\<forall>ns. get_prop (spread v) ''$nin'' = JArr ns \<longrightarrow> JStr c \<notin> set ns)"
    by blast
  show "plainClass (narrowClasses h classes v)" unfolding n by (rule plain_one_or_in [OF a])
  show "condMatches (narrowClasses h classes v) (JStr c) \<longleftrightarrow>
           c \<in> set classes
           \<and> (\<forall>ins. get_prop (spread v) ''$in'' = JArr ins \<longrightarrow> JStr c \<in> set ins)
           \<and> (\<forall>ns. get_prop (spread v) ''$nin'' = JArr ns \<longrightarrow> JStr c \<notin> set ns)"
    unfolding n condMatches_one_or_in [OF a] using m by blast
qed

lemma all_classes_matches:
  "plainClass (JObj [(''$in'', JArr (map JStr classes))])"
  "condMatches (JObj [(''$in'', JArr (map JStr classes))]) (JStr c) \<longleftrightarrow> c \<in> set classes"
  by (auto simp: plainClass_def condMatches_in)

lemma replaced_class_matches:
  "plainClass (case classes of [x] \<Rightarrow> JStr x | _ \<Rightarrow> JObj [(''$in'', JArr (map JStr classes))])"
  "condMatches (case classes of [x] \<Rightarrow> JStr x | _ \<Rightarrow> JObj [(''$in'', JArr (map JStr classes))])
     (JStr c) \<longleftrightarrow> c \<in> set classes"
  by (auto simp: plainClass_def condMatches_in condMatches_str split: list.splits)

lemma concrete_no_mixin: "\<forall>c \<in> set (concreteDescendants h clazz). \<not> isMixin h c"
  by (simp add: concreteDescendants_def)

lemma scope_other:
  "k \<noteq> ''_class'' \<Longrightarrow> get_prop (scopeToClasses h classes tb) k = get_prop tb k"
  by (auto simp: scopeToClasses_def get_prop_assign split: json.splits)

lemma scope_cases:
  assumes cl: "\<forall>c \<in> set classes. \<not> isMixin h c"
  shows "get_prop tb ''_class'' = JUndefined \<Longrightarrow>
           plainClass (get_prop (scopeToClasses h classes tb) ''_class'')
           \<and> (\<forall>c. condMatches (get_prop (scopeToClasses h classes tb) ''_class'') (JStr c)
                    \<longleftrightarrow> c \<in> set classes)"
    and "get_prop tb ''_class'' = JStr s \<Longrightarrow> s \<notin> set classes \<Longrightarrow>
           plainClass (get_prop (scopeToClasses h classes tb) ''_class'')
           \<and> (\<forall>c. condMatches (get_prop (scopeToClasses h classes tb) ''_class'') (JStr c)
                    \<longleftrightarrow> c \<in> set classes)"
    and "get_prop tb ''_class'' = JStr s \<Longrightarrow> s \<in> set classes \<Longrightarrow>
           get_prop (scopeToClasses h classes tb) ''_class'' = JStr s"
    and "get_prop tb ''_class'' = JObj kvs \<Longrightarrow>
           plainClass (get_prop (scopeToClasses h classes tb) ''_class'')
           \<and> (\<forall>c. condMatches (get_prop (scopeToClasses h classes tb) ''_class'') (JStr c)
                    \<longleftrightarrow> c \<in> set classes
                      \<and> (\<forall>ins. get_prop kvs ''$in'' = JArr ins \<longrightarrow> JStr c \<in> set ins)
                      \<and> (\<forall>ns. get_prop kvs ''$nin'' = JArr ns \<longrightarrow> JStr c \<notin> set ns))"
proof -
  show "get_prop tb ''_class'' = JUndefined \<Longrightarrow>
           plainClass (get_prop (scopeToClasses h classes tb) ''_class'')
           \<and> (\<forall>c. condMatches (get_prop (scopeToClasses h classes tb) ''_class'') (JStr c)
                    \<longleftrightarrow> c \<in> set classes)"
    using all_classes_matches [of classes]
    by (simp add: scopeToClasses_def get_prop_assign)
  show "get_prop tb ''_class'' = JStr s \<Longrightarrow> s \<notin> set classes \<Longrightarrow>
           plainClass (get_prop (scopeToClasses h classes tb) ''_class'')
           \<and> (\<forall>c. condMatches (get_prop (scopeToClasses h classes tb) ''_class'') (JStr c)
                    \<longleftrightarrow> c \<in> set classes)"
    using replaced_class_matches [of classes]
    by (simp add: scopeToClasses_def get_prop_assign)
  show "get_prop tb ''_class'' = JStr s \<Longrightarrow> s \<in> set classes \<Longrightarrow>
           get_prop (scopeToClasses h classes tb) ''_class'' = JStr s"
    by (simp add: scopeToClasses_def)
  show "get_prop tb ''_class'' = JObj kvs \<Longrightarrow>
           plainClass (get_prop (scopeToClasses h classes tb) ''_class'')
           \<and> (\<forall>c. condMatches (get_prop (scopeToClasses h classes tb) ''_class'') (JStr c)
                    \<longleftrightarrow> c \<in> set classes
                      \<and> (\<forall>ins. get_prop kvs ''$in'' = JArr ins \<longrightarrow> JStr c \<in> set ins)
                      \<and> (\<forall>ns. get_prop kvs ''$nin'' = JArr ns \<longrightarrow> JStr c \<notin> set ns))"
    using narrowClasses_matches [OF cl, of "JObj kvs"]
    by (simp add: scopeToClasses_def get_prop_assign spread_def)
qed

lemma classScope_scoped:
  assumes ns: "\<not> skipClass options" and nd: "getBaseClass h clazz \<noteq> core_class_Doc"
    and nc: "clazz \<noteq> ''_class''"
  shows "\<exists>tb' T. fst (classScope h clazz options (tb, lk, mx)) = collapseSingle T
           \<and> get_prop T ''_class''
               = get_prop (scopeToClasses h (concreteDescendants h clazz) tb') ''_class''
           \<and> get_prop tb' ''_class'' = get_prop tb ''_class''"
proof -
  define tb' where "tb' = (if (case options of Some opt \<Rightarrow> o_skipSpace opt | None \<Rightarrow> False)
             then delete_key ''space'' tb else tb)"
  define S where "S = scopeToClasses h (concreteDescendants h clazz) tb'"
  define T where "T = (if getBaseClass h clazz \<noteq> clazz \<and> clazz \<notin> set mx
                         then assign clazz (JObj [(''$exists'', JBool True)]) S else S)"
  have "fst (classScope h clazz options (tb, lk, mx)) = collapseSingle T"
    using ns nd
    by (simp add: classScope_def Let_def skipClass_def tb'_def S_def T_def
        concreteDescendants_def)
  moreover have "get_prop T ''_class'' = get_prop S ''_class''"
    using nc by (simp add: T_def get_prop_assign)
  moreover have "get_prop tb' ''_class'' = get_prop tb ''_class''"
    by (simp add: tb'_def get_prop_delete)
  ultimately show ?thesis unfolding S_def by blast
qed

lemma collapse_none: "get_prop tb ''_class'' = JUndefined \<Longrightarrow> collapseSingle tb = tb"
  by (simp add: collapseSingle_def)

lemma has_key_get_prop: "\<not> has_key k d \<Longrightarrow> get_prop d k = JUndefined"
proof -
  assume "\<not> has_key k d"
  then have "map_of d k = None" by (simp add: has_key_def map_of_eq_None_iff)
  then show ?thesis by (simp add: get_prop_def)
qed

lemma has_key_delete_other: "has_key k (delete_key k' d) \<Longrightarrow> has_key k d"
  by (auto simp: has_key_def delete_key_def)

lemma classScope_skip:
  "skipClass options \<Longrightarrow> \<not> has_key ''_class'' (fst (classScope h clazz options st))"
  by (simp add: classScope_def Let_def skipClass_def has_key_delete)

lemma classScope_root:
  assumes "\<not> skipClass options" "getBaseClass h clazz = core_class_Doc"
  shows "\<not> has_key ''_class'' (fst (classScope h clazz options st))"
proof -
  define tb' where "tb' = (if (case options of Some opt \<Rightarrow> o_skipSpace opt | None \<Rightarrow> False)
             then delete_key ''space'' (fst st) else fst st)"
  define T where "T = (if has_key ''_class'' tb' then delete_key ''_class'' tb' else tb')"
  have nk: "\<not> has_key ''_class'' T" by (simp add: T_def has_key_delete)
  have "fst (classScope h clazz options st) = collapseSingle T"
    using assms by (simp add: classScope_def Let_def skipClass_def tb'_def T_def)
  also have "\<dots> = T" by (rule collapse_none [OF has_key_get_prop [OF nk]])
  finally show ?thesis using nk by simp
qed

lemma scoped_filter_general:
  "translateFields h clazz query = Inr (tb, lk, mx) \<longrightarrow>
     (\<exists>base. translateQuery h clazz query options = Inr (base, lk)
        \<and> (skipClass options \<longrightarrow> \<not> has_key ''_class'' base)
        \<and> (\<not> skipClass options \<and> getBaseClass h clazz = core_class_Doc
             \<longrightarrow> \<not> has_key ''_class'' base)
        \<and> (\<not> skipClass options \<and> getBaseClass h clazz \<noteq> core_class_Doc \<and> clazz \<noteq> ''_class''
             \<longrightarrow>
             (get_prop tb ''_class'' = JUndefined \<longrightarrow>
                (\<forall>c. condMatches (get_prop base ''_class'') (JStr c)
                       \<longleftrightarrow> c \<in> set (concreteDescendants h clazz)))
             \<and> (\<forall>s. get_prop tb ''_class'' = JStr s \<and> s \<notin> set (concreteDescendants h clazz)
                   \<longrightarrow> (\<forall>c. condMatches (get_prop base ''_class'') (JStr c)
                              \<longleftrightarrow> c \<in> set (concreteDescendants h clazz)))
             \<and> (\<forall>s. get_prop tb ''_class'' = JStr s \<and> s \<in> set (concreteDescendants h clazz)
                   \<longrightarrow> get_prop base ''_class'' = JStr s)
             \<and> (\<forall>kvs. get_prop tb ''_class'' = JObj kvs
                   \<longrightarrow> (\<forall>c. condMatches (get_prop base ''_class'') (JStr c)
                              \<longleftrightarrow> c \<in> set (concreteDescendants h clazz)
                                \<and> (\<forall>ins. get_prop kvs ''$in'' = JArr ins \<longrightarrow> JStr c \<in> set ins)
                                \<and> (\<forall>ns. get_prop kvs ''$nin'' = JArr ns
                                          \<longrightarrow> JStr c \<notin> set ns)))))"
  (is "_ \<longrightarrow> ?concl")
proof
  assume tr: "translateFields h clazz query = Inr (tb, lk, mx)"
  define base where "base = fst (classScope h clazz options (tb, lk, mx))"
  have snd: "snd (classScope h clazz options (tb, lk, mx)) = lk"
    by (simp add: classScope_def Let_def)
  have tq: "translateQuery h clazz query options = Inr (base, lk)"
    using tr snd by (simp add: translateQuery_def bindE_def base_def prod_eq_iff)
  have skip: "skipClass options \<longrightarrow> \<not> has_key ''_class'' base"
    unfolding base_def using classScope_skip by blast
  have root: "\<not> skipClass options \<and> getBaseClass h clazz = core_class_Doc
             \<longrightarrow> \<not> has_key ''_class'' base"
    unfolding base_def using classScope_root by blast
  have scoped: "(get_prop tb ''_class'' = JUndefined \<longrightarrow>
                (\<forall>c. condMatches (get_prop base ''_class'') (JStr c)
                       \<longleftrightarrow> c \<in> set (concreteDescendants h clazz)))
             \<and> (\<forall>s. get_prop tb ''_class'' = JStr s \<and> s \<notin> set (concreteDescendants h clazz)
                   \<longrightarrow> (\<forall>c. condMatches (get_prop base ''_class'') (JStr c)
                              \<longleftrightarrow> c \<in> set (concreteDescendants h clazz)))
             \<and> (\<forall>s. get_prop tb ''_class'' = JStr s \<and> s \<in> set (concreteDescendants h clazz)
                   \<longrightarrow> get_prop base ''_class'' = JStr s)
             \<and> (\<forall>kvs. get_prop tb ''_class'' = JObj kvs
                   \<longrightarrow> (\<forall>c. condMatches (get_prop base ''_class'') (JStr c)
                              \<longleftrightarrow> c \<in> set (concreteDescendants h clazz)
                                \<and> (\<forall>ins. get_prop kvs ''$in'' = JArr ins \<longrightarrow> JStr c \<in> set ins)
                                \<and> (\<forall>ns. get_prop kvs ''$nin'' = JArr ns
                                          \<longrightarrow> JStr c \<notin> set ns)))"
    if h: "\<not> skipClass options" "getBaseClass h clazz \<noteq> core_class_Doc" "clazz \<noteq> ''_class''"
  proof -
    from classScope_scoped [OF h, of tb lk mx] obtain tb' T where
      b: "base = collapseSingle T"
      and t: "get_prop T ''_class''
               = get_prop (scopeToClasses h (concreteDescendants h clazz) tb') ''_class''"
      and c0: "get_prop tb' ''_class'' = get_prop tb ''_class''"
      unfolding base_def by blast
    note sc = scope_cases [OF concrete_no_mixin [of h clazz], of tb', unfolded c0 t [symmetric]]
    have 1: "get_prop tb ''_class'' = JUndefined \<longrightarrow>
                (\<forall>c. condMatches (get_prop base ''_class'') (JStr c)
                       \<longleftrightarrow> c \<in> set (concreteDescendants h clazz))"
      using sc(1) collapse_plain(1) [of T] unfolding b by simp
    have 2: "\<forall>s. get_prop tb ''_class'' = JStr s \<and> s \<notin> set (concreteDescendants h clazz)
                   \<longrightarrow> (\<forall>c. condMatches (get_prop base ''_class'') (JStr c)
                              \<longleftrightarrow> c \<in> set (concreteDescendants h clazz))"
      using sc(2) collapse_plain(1) [of T] unfolding b by simp
    have 3: "\<forall>s. get_prop tb ''_class'' = JStr s \<and> s \<in> set (concreteDescendants h clazz)
                   \<longrightarrow> get_prop base ''_class'' = JStr s"
      using sc(3) unfolding b by (auto simp: collapseSingle_def)
    have 4: "\<forall>kvs. get_prop tb ''_class'' = JObj kvs
                   \<longrightarrow> (\<forall>c. condMatches (get_prop base ''_class'') (JStr c)
                              \<longleftrightarrow> c \<in> set (concreteDescendants h clazz)
                                \<and> (\<forall>ins. get_prop kvs ''$in'' = JArr ins \<longrightarrow> JStr c \<in> set ins)
                                \<and> (\<forall>ns. get_prop kvs ''$nin'' = JArr ns
                                          \<longrightarrow> JStr c \<notin> set ns))"
      using sc(4) collapse_plain(1) [of T] unfolding b by simp
    from 1 2 3 4 show ?thesis by blast
  qed
  from tq skip root scoped show ?concl
    by (intro exI [of _ base]) blast
qed

text \<open>
  C3, as the code has it. Let the loop over the fields of the query have given the base
  filter \<open>tb\<close>. With \<open>skipClass\<close> the result has no class constraint. Without it, when the
  base class of the queried class is the root \<^verbatim>\<open>core:class:Doc\<close>, the result has no class
  constraint either: none is injected and a given one is removed. Otherwise the
  constraint of the result admits exactly the concrete descendants of the base class when
  \<open>tb\<close> has none or has a single class that is no such descendant; it is the single class
  of \<open>tb\<close> when that is a descendant; and for an object it admits the descendants that are
  in its \<^verbatim>\<open>$in\<close> array and not in its \<^verbatim>\<open>$nin\<close> array, where it has them. In the scenario
  of the two documents of classes \<open>A\<close> and \<open>B\<close>, \<open>findAll\<close> on \<open>A\<close> finds both, with
  \<^verbatim>\<open>_class: 'B'\<close> the second only, and with \<open>skipClass\<close> both.
\<close>

theorem class_scoping:
  "(translateFields h clazz query = Inr (tb, lk, mx) \<longrightarrow>
     (\<exists>base. translateQuery h clazz query options = Inr (base, lk)
        \<and> (skipClass options \<longrightarrow> \<not> has_key ''_class'' base)
        \<and> (\<not> skipClass options \<and> getBaseClass h clazz = core_class_Doc
             \<longrightarrow> \<not> has_key ''_class'' base)
        \<and> (\<not> skipClass options \<and> getBaseClass h clazz \<noteq> core_class_Doc \<and> clazz \<noteq> ''_class''
             \<longrightarrow>
             (get_prop tb ''_class'' = JUndefined \<longrightarrow>
                (\<forall>c. condMatches (get_prop base ''_class'') (JStr c)
                       \<longleftrightarrow> c \<in> set (concreteDescendants h clazz)))
             \<and> (\<forall>s. get_prop tb ''_class'' = JStr s \<and> s \<notin> set (concreteDescendants h clazz)
                   \<longrightarrow> (\<forall>c. condMatches (get_prop base ''_class'') (JStr c)
                              \<longleftrightarrow> c \<in> set (concreteDescendants h clazz)))
             \<and> (\<forall>s. get_prop tb ''_class'' = JStr s \<and> s \<in> set (concreteDescendants h clazz)
                   \<longrightarrow> get_prop base ''_class'' = JStr s)
             \<and> (\<forall>kvs. get_prop tb ''_class'' = JObj kvs
                   \<longrightarrow> (\<forall>c. condMatches (get_prop base ''_class'') (JStr c)
                              \<longleftrightarrow> c \<in> set (concreteDescendants h clazz)
                                \<and> (\<forall>ins. get_prop kvs ''$in'' = JArr ins \<longrightarrow> JStr c \<in> set ins)
                                \<and> (\<forall>ns. get_prop kvs ''$nin'' = JArr ns
                                          \<longrightarrow> JStr c \<notin> set ns))))))
   \<and> found (findAll h_AB ''A'' [] None) docs_AB = Some [JNum 1, JNum 2]
   \<and> found (findAll h_AB ''A'' [(''_class'', JStr ''B'')] None) docs_AB = Some [JNum 2]
   \<and> found (findAll h_AB ''A'' [] (Some (opts_ex\<lparr>o_skipClass := True\<rparr>))) docs_AB
       = Some [JNum 1, JNum 2]"
proof -
  have "found (findAll h_AB ''A'' [] None) docs_AB = Some [JNum 1, JNum 2]" by code_simp
  moreover have "found (findAll h_AB ''A'' [(''_class'', JStr ''B'')] None) docs_AB
                   = Some [JNum 2]" by code_simp
  moreover have "found (findAll h_AB ''A'' [] (Some (opts_ex\<lparr>o_skipClass := True\<rparr>))) docs_AB
                   = Some [JNum 1, JNum 2]" by code_simp
  ultimately show ?thesis
    using scoped_filter_general [of h clazz query tb lk mx options] by blast
qed

theorem class_scoping_witness:
  "translateFields h_AB ''A'' [(''_class'', JStr ''Z'')] = Inr ([(''_class'', JStr ''Z'')], [], [])
   \<and> concreteDescendants h_AB ''A'' = [''A'', ''B'']
   \<and> (\<exists>base. translateQuery h_AB ''A'' [(''_class'', JStr ''Z'')] None = Inr (base, [])
         \<and> (\<forall>c. condMatches (get_prop base ''_class'') (JStr c) \<longleftrightarrow> c \<in> {''A'', ''B''}))"
proof -
  have t: "translateFields h_AB ''A'' [(''_class'', JStr ''Z'')]
             = Inr ([(''_class'', JStr ''Z'')], [], [])" by code_simp
  have d: "concreteDescendants h_AB ''A'' = [''A'', ''B'']" by code_simp
  have b: "getBaseClass h_AB ''A'' \<noteq> core_class_Doc" by code_simp
  have s: "\<not> skipClass None" by (simp add: skipClass_def)
  have g: "get_prop [(''_class'', JStr ''Z'')] ''_class'' = JStr ''Z''" by (simp add: get_prop_def)
  from class_scoping [where h = h_AB and clazz = "''A''" and query = "[(''_class'', JStr ''Z'')]"
      and tb = "[(''_class'', JStr ''Z'')]" and lk = "[]" and mx = "[]" and options = None]
    t b s g
  have "\<exists>base. translateQuery h_AB ''A'' [(''_class'', JStr ''Z'')] None = Inr (base, [])
         \<and> (\<forall>c. condMatches (get_prop base ''_class'') (JStr c)
                \<longleftrightarrow> c \<in> set (concreteDescendants h_AB ''A''))"
    unfolding d by auto
  with t d show ?thesis by simp
qed

text \<open>
  The claim as the spec states it fails for a query on the root class: nothing is
  injected for the empty query, and the constraint \<^verbatim>\<open>_class: 'B'\<close> is dropped, so that the
  document of class \<open>A\<close> is found as well.
\<close>

theorem class_scoping_counterexample:
  "getBaseClass h_ex core_class_Doc = core_class_Doc
   \<and> translateQuery h_ex core_class_Doc [] None = Inr ([], [])
   \<and> findAll h_ex core_class_Doc [(''_class'', JStr ''B'')] None = Inr (FindCursorCall [])
   \<and> found (findAll h_ex core_class_Doc [(''_class'', JStr ''B'')] None) docs_AB
       = Some [JNum 1, JNum 2]"
  by code_simp

end
